theory Spec2Isabelle
  imports Complex_Main "HOL-Library.Sublist"
begin

section \<open>Data model\<close>

text \<open>
  The repository holds two Go programs that share the scraper: the interactive server
  (\<^verbatim>\<open>server/main.go\<close>, the Go part of \<^verbatim>\<open>src/public/app.js\<close>) and the batch scraper
  (\<^verbatim>\<open>src/mapthens-endpoints/scraper/scraper.go\<close>). Both declare the same \<^verbatim>\<open>Event\<close> struct.
  The coordinates are \<^verbatim>\<open>float64\<close> in Go; the code never computes with them (it copies what
  the geocoding reply holds, or stores a constant), so they are modelled as reals.
\<close>

record Event =
  Date :: string
  Datetime :: string
  Category :: string
  Title :: string
  EventLink :: string
  Venue :: string
  Address :: string
  Description :: string
  Latitude :: real
  Longitude :: real

text \<open>
  One element of the selection
  \<^verbatim>\<open>doc.Find(".tribe-common-g-row.tribe-events-calendar-list__event-row")\<close>: what each
  structural lookup of the callback returns on it. \<^verbatim>\<open>Attr\<close> yields a value and an
  \<^verbatim>\<open>exists\<close> flag (an option here); \<^verbatim>\<open>Text()\<close> of an empty selection is the empty string.
\<close>

record row =
  time_datetime_attr :: "string option"
  datetime_text :: string
  category_text :: string
  title_text :: string
  title_link_href :: "string option"
  venue_text :: string
  address_text :: string
  description_text :: string

text \<open>The errors the code builds with \<^verbatim>\<open>fmt.Errorf\<close> or passes on, one constructor each.\<close>

datatype error =
    TokenNotSet            \<comment> \<open>"MAPBOX_ACCESS_TOKEN not set"\<close>
  | RequestError           \<comment> \<open>"error making request: ..."\<close>
  | Non200 nat             \<comment> \<open>"non-200 status code: %d"\<close>
  | JsonDecodeError        \<comment> \<open>"error decoding json response: ..."\<close>
  | ZeroFeatures           \<comment> \<open>"number of features returned was zero"\<close>
  | FetchError             \<comment> \<open>"failed to fetch events page: ..."\<close>
  | PageNon200 nat         \<comment> \<open>"received non-200 status code: %d"\<close>
  | HtmlParseError         \<comment> \<open>"failed to parse HTML: ..."\<close>
  | MarshalError           \<comment> \<open>the error of \<^verbatim>\<open>json.MarshalIndent\<close>\<close>
  | WriteError             \<comment> \<open>the error of \<^verbatim>\<open>os.WriteFile\<close>\<close>
  | ReadError              \<comment> \<open>the error of \<^verbatim>\<open>os.ReadFile\<close>\<close>
  | UnmarshalError         \<comment> \<open>the error of \<^verbatim>\<open>json.Unmarshal\<close>\<close>

datatype request =
    GeocodeReq string string   \<comment> \<open>the forward-geocoding URL with parameters \<^verbatim>\<open>q\<close> and \<^verbatim>\<open>access_token\<close>\<close>
  | ListingReq                 \<comment> \<open>\<^verbatim>\<open>https://flagpole.com/events/\<close>\<close>

text \<open>
  The outcome of \<^verbatim>\<open>http.Get\<close>: an error, or a response with its status code and its
  body. The body is given as the decoder reads it, \<open>None\<close> when decoding fails.
\<close>

datatype 'a http_result = GetFailed | Response nat 'a

datatype log_msg =
    LogScraping                    \<comment> \<open>"Scraping events from flagpole.com..."\<close>
  | LogGeocodeError string error   \<comment> \<open>"Error geocoding address '%s': %v"\<close>
  | LogScraped nat                 \<comment> \<open>"Scraped %d events."\<close>
  | LogLoaded                      \<comment> \<open>"Loaded events from local file."\<close>
  | LogSaveFailed error            \<comment> \<open>"Warning: Failed to save events to file: %v"\<close>
  | LogDecodeAddress error         \<comment> \<open>"Error decoding address for event, %v" (batch scraper)\<close>

datatype io_event =
    HttpGet request
  | Stat
  | ReadFile
  | WriteFile string
  | Sleep nat
  | Log log_msg

datatype write_outcome =
    Written
  | WriteFailed "string option"   \<comment> \<open>what the failed write leaves of the file\<close>

section \<open>The environment and the process state\<close>

text \<open>
  Everything the programs read from outside. The remote services, the clock and the disk
  answer as functions of the time of the call, which is the number of effects the process
  has performed so far: two calls with the same address may get different replies.
  \<^item> \<open>MAPBOX_ACCESS_TOKEN\<close>: \<^verbatim>\<open>os.Getenv("MAPBOX_ACCESS_TOKEN")\<close>, empty when unset;
  \<^item> \<open>geocode_endpoint t q token\<close>: the reply to the geocoding request; its body decoded as
    \<^verbatim>\<open>MapboxResponse\<close> is the list of the features' \<^verbatim>\<open>geometry.coordinates\<close> pairs;
  \<^item> \<open>events_page t\<close>: the reply to the listing request; its body parsed by goquery is the
    list of event rows in document order;
  \<^item> \<open>today_at t\<close>: \<^verbatim>\<open>time.Now().Format("2006-01-02")\<close>;
  \<^item> \<open>write_at t\<close>: whether \<^verbatim>\<open>os.WriteFile\<close> succeeds;
  \<^item> \<open>json_MarshalIndent\<close>, \<open>json_Unmarshal\<close>: the functions of \<^verbatim>\<open>encoding/json\<close> on
    \<^verbatim>\<open>[]Event\<close>, \<open>None\<close> for an error. They are library code and stay parameters.
\<close>

record world =
  MAPBOX_ACCESS_TOKEN :: string
  geocode_endpoint :: "nat \<Rightarrow> string \<Rightarrow> string \<Rightarrow> (real \<times> real) list option http_result"
  events_page :: "nat \<Rightarrow> row list option http_result"
  today_at :: "nat \<Rightarrow> string"
  write_at :: "nat \<Rightarrow> write_outcome"
  json_MarshalIndent :: "Event list \<Rightarrow> string option"
  json_Unmarshal :: "string \<Rightarrow> Event list option"

text \<open>
  The state of the server process: the global \<^verbatim>\<open>eventsCache\<close> (a nil and an empty slice
  are both the empty list), the content of \<^verbatim>\<open>events.json\<close> (\<open>None\<close> when the file does
  not exist) and the effects performed so far, oldest first.
\<close>

record state =
  eventsCache :: "Event list"
  dataFile :: "string option"
  trace :: "io_event list"

definition emit :: "io_event \<Rightarrow> state \<Rightarrow> state" where
  "emit e s = s\<lparr>trace := trace s @ [e]\<rparr>"

definition clock :: "state \<Rightarrow> nat" where
  "clock s = length (trace s)"

section \<open>Library functions of \<^verbatim>\<open>strings\<close>\<close>

text \<open>
  \<^verbatim>\<open>strings.TrimSpace\<close> removes leading and trailing Unicode white space. Strings are
  byte lists; \<open>white_space\<close> lists the UTF-8 encodings of the code points that
  \<^verbatim>\<open>unicode.IsSpace\<close> accepts.
\<close>

definition white_space :: "string list" where
  "white_space =
    [[CHR 0x09], [CHR 0x0A], [CHR 0x0B], [CHR 0x0C], [CHR 0x0D], [CHR 0x20],
     [CHR 0xC2, CHR 0x85], [CHR 0xC2, CHR 0xA0],
     [CHR 0xE1, CHR 0x9A, CHR 0x80],
     [CHR 0xE2, CHR 0x80, CHR 0x80], [CHR 0xE2, CHR 0x80, CHR 0x81],
     [CHR 0xE2, CHR 0x80, CHR 0x82], [CHR 0xE2, CHR 0x80, CHR 0x83],
     [CHR 0xE2, CHR 0x80, CHR 0x84], [CHR 0xE2, CHR 0x80, CHR 0x85],
     [CHR 0xE2, CHR 0x80, CHR 0x86], [CHR 0xE2, CHR 0x80, CHR 0x87],
     [CHR 0xE2, CHR 0x80, CHR 0x88], [CHR 0xE2, CHR 0x80, CHR 0x89],
     [CHR 0xE2, CHR 0x80, CHR 0x8A],
     [CHR 0xE2, CHR 0x80, CHR 0xA8], [CHR 0xE2, CHR 0x80, CHR 0xA9],
     [CHR 0xE2, CHR 0x80, CHR 0xAF], [CHR 0xE2, CHR 0x81, CHR 0x9F],
     [CHR 0xE3, CHR 0x80, CHR 0x80]]"

definition space_width :: "string list \<Rightarrow> string \<Rightarrow> nat" where
  "space_width ps s = (case find (\<lambda>p. prefix p s) ps of None \<Rightarrow> 0 | Some p \<Rightarrow> length p)"

fun trim_runes :: "string list \<Rightarrow> string \<Rightarrow> string" where
  "trim_runes ps [] = []"
| "trim_runes ps (c # cs) =
     (if space_width ps (c # cs) = 0 then c # cs
      else trim_runes ps (drop (space_width ps (c # cs) - 1) cs))"

definition TrimSpace :: "string \<Rightarrow> string" where
  "TrimSpace s = rev (trim_runes (map rev white_space) (rev (trim_runes white_space s)))"

text \<open>\<^verbatim>\<open>strings.HasPrefix(s, prefix)\<close>.\<close>

definition HasPrefix :: "string \<Rightarrow> string \<Rightarrow> bool" where
  "HasPrefix s p = prefix p s"

section \<open>The interactive server\<close>

subsection \<open>\<^verbatim>\<open>geocodeAddress\<close>\<close>

text \<open>
  Go returns \<^verbatim>\<open>(longitude, latitude, err)\<close>, the numbers being 0 with an error; here the
  result is the error or the pair \<open>(longitude, latitude)\<close>. The request is issued at the
  current time and recorded in the trace.
\<close>

definition geocodeAddress :: "world \<Rightarrow> string \<Rightarrow> state \<Rightarrow> (error + real \<times> real) \<times> state" where
  "geocodeAddress w address s =
    (let accessToken = MAPBOX_ACCESS_TOKEN w in
     if accessToken = [] then (Inl TokenNotSet, s)
     else
       let resp = geocode_endpoint w (clock s) address accessToken;
           s1 = emit (HttpGet (GeocodeReq address accessToken)) s
       in case resp of
            GetFailed \<Rightarrow> (Inl RequestError, s1)
          | Response code body \<Rightarrow>
              if code \<noteq> 200 then (Inl (Non200 code), s1)
              else (case body of
                      None \<Rightarrow> (Inl JsonDecodeError, s1)
                    | Some features \<Rightarrow>
                        (case features of
                           [] \<Rightarrow> (Inl ZeroFeatures, s1)
                         | (longitude, latitude) # _ \<Rightarrow> (Inr (longitude, latitude), s1))))"

subsection \<open>\<^verbatim>\<open>scrapeEvents\<close>\<close>

text \<open>
  The callback given to \<^verbatim>\<open>Each\<close>: it appends to \<^verbatim>\<open>eventList\<close> or returns early.
\<close>

definition scrapeRow :: "world \<Rightarrow> string \<Rightarrow> row \<Rightarrow> Event list \<times> state \<Rightarrow> Event list \<times> state" where
  "scrapeRow w today event acc =
    (case acc of (eventList, s) \<Rightarrow>
      (case time_datetime_attr event of
         None \<Rightarrow> (eventList, s)
       | Some dateAttr \<Rightarrow>
           if \<not> HasPrefix dateAttr today then (eventList, s)
           else
             let datetime = TrimSpace (datetime_text event);
                 category = TrimSpace (category_text event);
                 title = TrimSpace (title_text event);
                 eventLink = (case title_link_href event of None \<Rightarrow> [] | Some href \<Rightarrow> href);
                 venue = TrimSpace (venue_text event);
                 address = TrimSpace (address_text event);
                 description = TrimSpace (description_text event)
             in (case geocodeAddress w address s of
                  (Inl err, s1) \<Rightarrow>
                    (eventList @
                       [\<lparr>Date = dateAttr, Datetime = datetime, Category = category,
                         Title = title, EventLink = eventLink, Venue = venue,
                         Address = address, Description = description,
                         Latitude = 0, Longitude = 0\<rparr>],
                     emit (Log (LogGeocodeError address err)) s1)
                | (Inr (longitude, latitude), s1) \<Rightarrow>
                    (eventList @
                       [\<lparr>Date = dateAttr, Datetime = datetime, Category = category,
                         Title = title, EventLink = eventLink, Venue = venue,
                         Address = address, Description = description,
                         Latitude = latitude, Longitude = longitude\<rparr>],
                     emit (Sleep 100) s1))))"

definition scrapeEvents :: "world \<Rightarrow> state \<Rightarrow> (error + Event list) \<times> state" where
  "scrapeEvents w s =
    (let s0 = emit (Log LogScraping) s;
         resp = events_page w (clock s0);
         s1 = emit (HttpGet ListingReq) s0
     in case resp of
          GetFailed \<Rightarrow> (Inl FetchError, s1)
        | Response code body \<Rightarrow>
            if code \<noteq> 200 then (Inl (PageNon200 code), s1)
            else (case body of
                    None \<Rightarrow> (Inl HtmlParseError, s1)
                  | Some rows \<Rightarrow>
                      let today = today_at w (clock s1) in
                      (case fold (scrapeRow w today) rows ([], s1) of
                         (eventList, s2) \<Rightarrow>
                           (Inr eventList, emit (Log (LogScraped (length eventList))) s2))))"

subsection \<open>The cache file\<close>

definition saveEventsToFile :: "world \<Rightarrow> Event list \<Rightarrow> state \<Rightarrow> error option \<times> state" where
  "saveEventsToFile w events s =
    (case json_MarshalIndent w events of
       None \<Rightarrow> (Some MarshalError, s)
     | Some data \<Rightarrow>
         (case write_at w (clock s) of
            Written \<Rightarrow> (None, emit (WriteFile data) (s\<lparr>dataFile := Some data\<rparr>))
          | WriteFailed left \<Rightarrow> (Some WriteError, emit (WriteFile data) (s\<lparr>dataFile := left\<rparr>))))"

definition loadEventsFromFile :: "world \<Rightarrow> state \<Rightarrow> (error + Event list) \<times> state" where
  "loadEventsFromFile w s =
    (case dataFile s of
       None \<Rightarrow> (Inl ReadError, emit ReadFile s)
     | Some data \<Rightarrow>
         (case json_Unmarshal w data of
            None \<Rightarrow> (Inl UnmarshalError, emit ReadFile s)
          | Some events \<Rightarrow> (Inr events, emit ReadFile s)))"

subsection \<open>\<^verbatim>\<open>getEvents\<close>\<close>

text \<open>
  The body runs between \<^verbatim>\<open>mutex.Lock()\<close> and the deferred \<^verbatim>\<open>mutex.Unlock()\<close>, so a call
  is one transformation of the state. \<open>loadIfEmpty\<close> is the first \<^verbatim>\<open>if\<close> block of the
  function, \<open>getEvents\<close> the whole of it.
\<close>

definition loadIfEmpty :: "world \<Rightarrow> state \<Rightarrow> state" where
  "loadIfEmpty w s =
    (if length (eventsCache s) = 0 then
       (let s1 = emit Stat s in
        if dataFile s \<noteq> None then
          (case loadEventsFromFile w s1 of
             (Inr events, s2) \<Rightarrow> emit (Log LogLoaded) (s2\<lparr>eventsCache := events\<rparr>)
           | (Inl err, s2) \<Rightarrow> s2)
        else s1)
     else s)"

definition getEvents :: "world \<Rightarrow> state \<Rightarrow> (error + Event list) \<times> state" where
  "getEvents w s =
    (let s1 = loadIfEmpty w s in
     if length (eventsCache s1) = 0 then
       (case scrapeEvents w s1 of
          (Inl err, s2) \<Rightarrow> (Inl err, s2)
        | (Inr events, s2) \<Rightarrow>
            let s3 = s2\<lparr>eventsCache := events\<rparr> in
            (case saveEventsToFile w events s3 of
               (Some err, s4) \<Rightarrow>
                 (Inr (eventsCache s4), emit (Log (LogSaveFailed err)) s4)
             | (None, s4) \<Rightarrow> (Inr (eventsCache s4), s4)))
     else (Inr (eventsCache s1), s1))"

section \<open>The batch scraper\<close>

text \<open>
  \<^verbatim>\<open>scraper.go\<close> has its own \<^verbatim>\<open>geocodeAddress\<close> and \<^verbatim>\<open>scrapeEvents\<close>: no check of the
  token, no delay, other log lines and another sentinel. This program keeps no cache; of
  the state its functions use the trace only.
\<close>

definition geocodeAddress_batch :: "world \<Rightarrow> string \<Rightarrow> state \<Rightarrow> (error + real \<times> real) \<times> state" where
  "geocodeAddress_batch w address s =
    (let accessToken = MAPBOX_ACCESS_TOKEN w;
         resp = geocode_endpoint w (clock s) address accessToken;
         s1 = emit (HttpGet (GeocodeReq address accessToken)) s
     in case resp of
          GetFailed \<Rightarrow> (Inl RequestError, s1)
        | Response code body \<Rightarrow>
            if code \<noteq> 200 then (Inl (Non200 code), s1)
            else (case body of
                    None \<Rightarrow> (Inl JsonDecodeError, s1)
                  | Some features \<Rightarrow>
                      (case features of
                         [] \<Rightarrow> (Inl ZeroFeatures, s1)
                       | (longitude, latitude) # _ \<Rightarrow> (Inr (longitude, latitude), s1))))"

definition scrapeRow_batch :: "world \<Rightarrow> string \<Rightarrow> row \<Rightarrow> Event list \<times> state \<Rightarrow> Event list \<times> state" where
  "scrapeRow_batch w today event acc =
    (case acc of (eventList, s) \<Rightarrow>
      (case time_datetime_attr event of
         None \<Rightarrow> (eventList, s)
       | Some dateAttr \<Rightarrow>
           if \<not> HasPrefix dateAttr today then (eventList, s)
           else
             let datetime = TrimSpace (datetime_text event);
                 category = TrimSpace (category_text event);
                 title = TrimSpace (title_text event);
                 eventLink = (case title_link_href event of None \<Rightarrow> [] | Some href \<Rightarrow> href);
                 venue = TrimSpace (venue_text event);
                 address = TrimSpace (address_text event);
                 description = TrimSpace (description_text event)
             in (case geocodeAddress_batch w address s of
                  (Inl err, s1) \<Rightarrow>
                    (eventList @
                       [\<lparr>Date = dateAttr, Datetime = datetime, Category = category,
                         Title = title, EventLink = eventLink, Venue = venue,
                         Address = address, Description = description,
                         Latitude = - 1, Longitude = - 1\<rparr>],
                     emit (Log (LogDecodeAddress err)) s1)
                | (Inr (longitude, latitude), s1) \<Rightarrow>
                    (eventList @
                       [\<lparr>Date = dateAttr, Datetime = datetime, Category = category,
                         Title = title, EventLink = eventLink, Venue = venue,
                         Address = address, Description = description,
                         Latitude = latitude, Longitude = longitude\<rparr>],
                     s1))))"

definition scrapeEvents_batch :: "world \<Rightarrow> state \<Rightarrow> (error + Event list) \<times> state" where
  "scrapeEvents_batch w s =
    (let resp = events_page w (clock s);
         s1 = emit (HttpGet ListingReq) s
     in case resp of
          GetFailed \<Rightarrow> (Inl FetchError, s1)
        | Response code body \<Rightarrow>
            if code \<noteq> 200 then (Inl (PageNon200 code), s1)
            else (case body of
                    None \<Rightarrow> (Inl HtmlParseError, s1)
                  | Some rows \<Rightarrow>
                      let today = today_at w (clock s1) in
                      (case fold (scrapeRow_batch w today) rows ([], s1) of
                         (eventList, s2) \<Rightarrow> (Inr eventList, s2))))"

section \<open>Notions used to state the properties\<close>

text \<open>
  The filter of the callback: the row has the \<^verbatim>\<open>datetime\<close> attribute and today's date is
  a prefix of it (\<^verbatim>\<open>!exists || !strings.HasPrefix(dateAttr, today)\<close> returns early).
\<close>

definition kept :: "string \<Rightarrow> row \<Rightarrow> bool" where
  "kept today r =
    (case time_datetime_attr r of None \<Rightarrow> False | Some dateAttr \<Rightarrow> prefix today dateAttr)"

text \<open>The \<^verbatim>\<open>Event\<close> literal that the callback appends for a row, given the coordinates.\<close>

definition rowEvent :: "row \<Rightarrow> real \<Rightarrow> real \<Rightarrow> Event" where
  "rowEvent r latitude longitude =
    \<lparr>Date = (case time_datetime_attr r of None \<Rightarrow> [] | Some dateAttr \<Rightarrow> dateAttr),
     Datetime = TrimSpace (datetime_text r),
     Category = TrimSpace (category_text r),
     Title = TrimSpace (title_text r),
     EventLink = (case title_link_href r of None \<Rightarrow> [] | Some href \<Rightarrow> href),
     Venue = TrimSpace (venue_text r),
     Address = TrimSpace (address_text r),
     Description = TrimSpace (description_text r),
     Latitude = latitude, Longitude = longitude\<rparr>"

text \<open>An event with its coordinates blanked, to compare the other fields.\<close>

definition blank :: "Event \<Rightarrow> Event" where
  "blank e = e\<lparr>Latitude := 0, Longitude := 0\<rparr>"

text \<open>How often a trace fetches the listing page and reads the cache file.\<close>

definition listing_fetches :: "io_event list \<Rightarrow> nat" where
  "listing_fetches tr = length (filter (\<lambda>e. e = HttpGet ListingReq) tr)"

definition file_reads :: "io_event list \<Rightarrow> nat" where
  "file_reads tr = length (filter (\<lambda>e. e = ReadFile) tr)"

section \<open>Example inputs\<close>

text \<open>
  Rows of a listing on 1 May 2024: a concert today whose address geocodes, the same event
  a day later, a row of today with a time in the attribute, no title and no address, and a
  row without the \<^verbatim>\<open>datetime\<close> attribute.
\<close>

definition row_concert :: row where
  "row_concert =
    \<lparr>time_datetime_attr = Some ''2024-05-01'',
     datetime_text = '' May 1 @ 7:00 pm '',
     category_text = ''Music'',
     title_text = '' Concert '',
     title_link_href = Some ''https://flagpole.com/events/concert/'',
     venue_text = ''40 Watt'',
     address_text = ''123 Main St'',
     description_text = ''Live music''\<rparr>"

definition row_tomorrow :: row where
  "row_tomorrow = row_concert\<lparr>time_datetime_attr := Some ''2024-05-02''\<rparr>"

definition row_untitled :: row where
  "row_untitled =
    \<lparr>time_datetime_attr = Some ''2024-05-01T20:00'',
     datetime_text = ''May 1 @ 8:00 pm'',
     category_text = [],
     title_text = [],
     title_link_href = None,
     venue_text = ''Downtown'',
     address_text = [],
     description_text = []\<rparr>"

definition row_undated :: row where
  "row_undated = row_concert\<lparr>time_datetime_attr := None\<rparr>"

definition demo_page :: "row list" where
  "demo_page = [row_concert, row_tomorrow, row_untitled, row_undated, row_concert]"

text \<open>The events these rows give, up to the coordinates.\<close>

definition event_concert :: "real \<Rightarrow> real \<Rightarrow> Event" where
  "event_concert latitude longitude =
    \<lparr>Date = ''2024-05-01'', Datetime = ''May 1 @ 7:00 pm'', Category = ''Music'',
     Title = ''Concert'', EventLink = ''https://flagpole.com/events/concert/'',
     Venue = ''40 Watt'', Address = ''123 Main St'', Description = ''Live music'',
     Latitude = latitude, Longitude = longitude\<rparr>"

definition event_untitled :: "real \<Rightarrow> real \<Rightarrow> Event" where
  "event_untitled latitude longitude =
    \<lparr>Date = ''2024-05-01T20:00'', Datetime = ''May 1 @ 8:00 pm'', Category = [],
     Title = [], EventLink = [], Venue = ''Downtown'', Address = [], Description = [],
     Latitude = latitude, Longitude = longitude\<rparr>"

definition demo_events :: "Event list" where
  "demo_events = [event_concert 33.95 (- 83.37), event_untitled 0 0, event_concert 33.95 (- 83.37)]"

text \<open>
  A stand-in for \<^verbatim>\<open>encoding/json\<close> on the collections the examples save, each text
  shortened to a name: a nil slice is written as \<^verbatim>\<open>null\<close>.
\<close>

definition fixture_marshal :: "Event list \<Rightarrow> string option" where
  "fixture_marshal evs =
    (if evs = [] then Some ''null''
     else if evs = [event_concert 33.95 (- 83.37)] then Some ''[concert]''
     else if evs = demo_events then Some ''[concert, untitled, concert]''
     else None)"

definition fixture_unmarshal :: "string \<Rightarrow> Event list option" where
  "fixture_unmarshal d =
    (if d = ''null'' then Some []
     else if d = ''[concert]'' then Some [event_concert 33.95 (- 83.37)]
     else if d = ''[concert, untitled, concert]'' then Some demo_events
     else None)"

text \<open>
  The world of the examples: the token is set; the geocoder finds \<^verbatim>\<open>123 Main St\<close> at
  (-83.37, 33.95) and nothing else, and answers 401 to an empty token; writes succeed.
\<close>

definition demo_world :: world where
  "demo_world =
    \<lparr>MAPBOX_ACCESS_TOKEN = ''pk.demo'',
     geocode_endpoint = (\<lambda>t q token.
       if token = [] then Response 401 None
       else if q = ''123 Main St'' then Response 200 (Some [(- 83.37, 33.95)])
       else Response 200 (Some [])),
     events_page = (\<lambda>t. Response 200 (Some demo_page)),
     today_at = (\<lambda>t. ''2024-05-01''),
     write_at = (\<lambda>t. Written),
     json_MarshalIndent = fixture_marshal,
     json_Unmarshal = fixture_unmarshal\<rparr>"

text \<open>The same world when the listing has nothing for today until the sixth effect.\<close>

definition quiet_world :: world where
  "quiet_world =
    demo_world\<lparr>events_page := (\<lambda>t.
      if t < 5 then Response 200 (Some [row_tomorrow]) else Response 200 (Some [row_concert]))\<rparr>"

text \<open>The same world with \<^verbatim>\<open>MAPBOX_ACCESS_TOKEN\<close> unset, and with the listing unreachable.\<close>

definition tokenless_world :: world where
  "tokenless_world = demo_world\<lparr>MAPBOX_ACCESS_TOKEN := []\<rparr>"

definition offline_world :: world where
  "offline_world = demo_world\<lparr>events_page := (\<lambda>t. GetFailed)\<rparr>"

text \<open>A fresh process: nothing in memory, no cache file, no effect yet.\<close>

definition fresh :: state where
  "fresh = \<lparr>eventsCache = [], dataFile = None, trace = []\<rparr>"

section \<open>Lemmas about the callback and the scrape\<close>

lemma scrapeRow_skip: "\<not> kept today r \<Longrightarrow> scrapeRow w today r (evs, s) = (evs, s)"
  by (simp add: scrapeRow_def kept_def HasPrefix_def split: option.splits)

lemma scrapeRow_keep_fail:
  "kept today r \<Longrightarrow> geocodeAddress w (TrimSpace (address_text r)) s = (Inl err, s1) \<Longrightarrow>
   scrapeRow w today r (evs, s) =
     (evs @ [rowEvent r 0 0], emit (Log (LogGeocodeError (TrimSpace (address_text r)) err)) s1)"
  by (auto simp add: scrapeRow_def kept_def HasPrefix_def rowEvent_def Let_def split: option.splits)

lemma scrapeRow_keep_ok:
  "kept today r \<Longrightarrow> geocodeAddress w (TrimSpace (address_text r)) s = (Inr (lon, lat), s1) \<Longrightarrow>
   scrapeRow w today r (evs, s) = (evs @ [rowEvent r lat lon], emit (Sleep 100) s1)"
  by (auto simp add: scrapeRow_def kept_def HasPrefix_def rowEvent_def Let_def split: option.splits)

lemma scrapeRow_keep:
  "kept today r \<Longrightarrow>
   \<exists>lat lon s'. scrapeRow w today r (evs, s) = (evs @ [rowEvent r lat lon], s')"
proof -
  assume k: "kept today r"
  obtain res s1 where g: "geocodeAddress w (TrimSpace (address_text r)) s = (res, s1)"
    by (cases "geocodeAddress w (TrimSpace (address_text r)) s")
  show ?thesis
  proof (cases res)
    case (Inl err)
    with k g show ?thesis using scrapeRow_keep_fail by blast
  next
    case (Inr p)
    obtain lon lat where "p = (lon, lat)" by (cases p)
    with Inr k g show ?thesis using scrapeRow_keep_ok by blast
  qed
qed


lemma scrapeRow_batch_skip: "\<not> kept today r \<Longrightarrow> scrapeRow_batch w today r (evs, s) = (evs, s)"
  by (simp add: scrapeRow_batch_def kept_def HasPrefix_def split: option.splits)

lemma scrapeRow_batch_keep_fail:
  "kept today r \<Longrightarrow> geocodeAddress_batch w (TrimSpace (address_text r)) s = (Inl err, s1) \<Longrightarrow>
   scrapeRow_batch w today r (evs, s) =
     (evs @ [rowEvent r (- 1) (- 1)], emit (Log (LogDecodeAddress err)) s1)"
  by (auto simp add: scrapeRow_batch_def kept_def HasPrefix_def rowEvent_def Let_def split: option.splits)

lemma scrapeRow_batch_keep_ok:
  "kept today r \<Longrightarrow> geocodeAddress_batch w (TrimSpace (address_text r)) s = (Inr (lon, lat), s1) \<Longrightarrow>
   scrapeRow_batch w today r (evs, s) = (evs @ [rowEvent r lat lon], s1)"
  by (auto simp add: scrapeRow_batch_def kept_def HasPrefix_def rowEvent_def Let_def split: option.splits)

lemma scrapeRow_batch_keep:
  assumes k: "kept today r"
  shows "\<exists>lat lon s'. scrapeRow_batch w today r (evs, s) = (evs @ [rowEvent r lat lon], s')"
proof -
  obtain res s1 where g: "geocodeAddress_batch w (TrimSpace (address_text r)) s = (res, s1)"
    by (cases "geocodeAddress_batch w (TrimSpace (address_text r)) s")
  show ?thesis
  proof (cases res)
    case (Inl err)
    with k g show ?thesis using scrapeRow_batch_keep_fail by blast
  next
    case (Inr p)
    obtain lon lat where "p = (lon, lat)" by (cases p)
    with Inr k g show ?thesis using scrapeRow_batch_keep_ok by blast
  qed
qed

lemma blank_rowEvent: "blank (rowEvent r lat lon) = rowEvent r 0 0"
  by (simp add: blank_def rowEvent_def)

lemma fold_rows_blank:
  assumes skip: "\<And>r evs s. \<not> kept today r \<Longrightarrow> f r (evs, s) = (evs, s)"
      and keep: "\<And>r evs s. kept today r \<Longrightarrow>
                   \<exists>lat lon s'. f r (evs, s) = (evs @ [rowEvent r lat lon], s')"
  shows "\<exists>new. fst (fold f rows (evs, s)) = evs @ new \<and>
           map blank new = map (\<lambda>r. rowEvent r 0 0) (filter (kept today) rows)"
proof (induction rows arbitrary: evs s)
  case Nil
  show ?case by simp
next
  case (Cons r rows)
  show ?case
  proof (cases "kept today r")
    case False
    with skip have "f r (evs, s) = (evs, s)" by simp
    with False Cons.IH [of evs s] show ?thesis by simp
  next
    case True
    with keep obtain lat lon s' where st: "f r (evs, s) = (evs @ [rowEvent r lat lon], s')"
      by blast
    from Cons.IH [of "evs @ [rowEvent r lat lon]" s'] obtain new where
      n: "fst (fold f rows (evs @ [rowEvent r lat lon], s')) = (evs @ [rowEvent r lat lon]) @ new"
         "map blank new = map (\<lambda>r. rowEvent r 0 0) (filter (kept today) rows)"
      by blast
    have "fst (fold f (r # rows) (evs, s)) = evs @ (rowEvent r lat lon # new)"
      using st n(1) by simp
    moreover have "map blank (rowEvent r lat lon # new) =
        map (\<lambda>r. rowEvent r 0 0) (filter (kept today) (r # rows))"
      using True n(2) by (simp add: blank_rowEvent)
    ultimately show ?thesis by blast
  qed
qed

lemma fold_scrapeRow_blank:
  "\<exists>new. fst (fold (scrapeRow w today) rows (evs, s)) = evs @ new \<and>
     map blank new = map (\<lambda>r. rowEvent r 0 0) (filter (kept today) rows)"
  by (rule fold_rows_blank [OF scrapeRow_skip scrapeRow_keep])

lemma fold_scrapeRow_batch_blank:
  "\<exists>new. fst (fold (scrapeRow_batch w today) rows (evs, s)) = evs @ new \<and>
     map blank new = map (\<lambda>r. rowEvent r 0 0) (filter (kept today) rows)"
  by (rule fold_rows_blank [OF scrapeRow_batch_skip scrapeRow_batch_keep])

lemma fold_rows_inv:
  assumes "\<And>r acc. I (snd (f r acc)) = I (snd acc)"
  shows "I (snd (fold f rows acc)) = I (snd acc)"
  using assms by (induction rows arbitrary: acc) simp_all



lemma scrapeRow_frame:
  "eventsCache (snd (scrapeRow w today r acc)) = eventsCache (snd acc)"
  "dataFile (snd (scrapeRow w today r acc)) = dataFile (snd acc)"
  "listing_fetches (trace (snd (scrapeRow w today r acc))) = listing_fetches (trace (snd acc))"
  "file_reads (trace (snd (scrapeRow w today r acc))) = file_reads (trace (snd acc))"
  by (auto simp add: scrapeRow_def geocodeAddress_def emit_def Let_def listing_fetches_def
      file_reads_def
      split: prod.splits option.splits http_result.splits list.splits)


lemma clock_emit: "clock (emit e s) = Suc (clock s)"
  by (simp add: clock_def emit_def)

lemma emit_frame:
  "eventsCache (emit e s) = eventsCache s" "dataFile (emit e s) = dataFile s"
  "trace (emit e s) = trace s @ [e]"
  by (simp_all add: emit_def)

lemma scrapeEvents_ok:
  assumes "events_page w (Suc (clock s)) = Response 200 (Some rows)"
  shows "scrapeEvents w s =
    (case fold (scrapeRow w (today_at w (clock s + 2))) rows
            ([], emit (HttpGet ListingReq) (emit (Log LogScraping) s)) of
       (eventList, s2) \<Rightarrow> (Inr eventList, emit (Log (LogScraped (length eventList))) s2))"
  using assms by (simp add: scrapeEvents_def clock_emit Let_def)

lemma scrapeEvents_batch_ok:
  assumes "events_page w (clock s) = Response 200 (Some rows)"
  shows "scrapeEvents_batch w s =
    (case fold (scrapeRow_batch w (today_at w (clock s + 1))) rows
            ([], emit (HttpGet ListingReq) s) of
       (eventList, s2) \<Rightarrow> (Inr eventList, s2))"
  using assms by (simp add: scrapeEvents_batch_def clock_emit Let_def)

lemma scrapeEvents_error:
  assumes "scrapeEvents w s = (Inl err, s')"
  shows "s' = emit (HttpGet ListingReq) (emit (Log LogScraping) s) \<and>
         (err = FetchError \<or> (\<exists>code. code \<noteq> 200 \<and> err = PageNon200 code) \<or> err = HtmlParseError)"
  using assms
  by (auto simp add: scrapeEvents_def Let_def
      split: http_result.splits if_splits option.splits prod.splits)

lemma fold_scrapeRow_frame:
  "eventsCache (snd (fold (scrapeRow w today) rows acc)) = eventsCache (snd acc)"
  "dataFile (snd (fold (scrapeRow w today) rows acc)) = dataFile (snd acc)"
  "listing_fetches (trace (snd (fold (scrapeRow w today) rows acc))) = listing_fetches (trace (snd acc))"
  "file_reads (trace (snd (fold (scrapeRow w today) rows acc))) = file_reads (trace (snd acc))"
  by (rule fold_rows_inv, rule scrapeRow_frame)+

lemma count_emit:
  "listing_fetches (trace (emit e s)) = listing_fetches (trace s) + (if e = HttpGet ListingReq then 1 else 0)"
  "file_reads (trace (emit e s)) = file_reads (trace s) + (if e = ReadFile then 1 else 0)"
  by (simp_all add: emit_def listing_fetches_def file_reads_def)

lemma scrapeEvents_frame:
  "eventsCache (snd (scrapeEvents w s)) = eventsCache s"
  "dataFile (snd (scrapeEvents w s)) = dataFile s"
  "listing_fetches (trace (snd (scrapeEvents w s))) = listing_fetches (trace s) + 1"
  "file_reads (trace (snd (scrapeEvents w s))) = file_reads (trace s)"
proof -
  let ?s1 = "emit (HttpGet ListingReq) (emit (Log LogScraping) s)"
  have s1: "eventsCache ?s1 = eventsCache s" "dataFile ?s1 = dataFile s"
    "listing_fetches (trace ?s1) = listing_fetches (trace s) + 1"
    "file_reads (trace ?s1) = file_reads (trace s)"
    by (simp_all add: emit_frame(1,2) count_emit)
  have pick: "snd (scrapeEvents w s) = ?s1 \<or>
    (\<exists>today rows. snd (scrapeEvents w s) =
       emit (Log (LogScraped (length (fst (fold (scrapeRow w today) rows ([], ?s1))))))
         (snd (fold (scrapeRow w today) rows ([], ?s1))))"
  proof (cases "\<exists>rows. events_page w (Suc (clock s)) = Response 200 (Some rows)")
    case True
    then obtain rows where "events_page w (Suc (clock s)) = Response 200 (Some rows)" ..
    from scrapeEvents_ok [OF this] show ?thesis
      by (auto simp add: case_prod_beta)
  next
    case False
    then show ?thesis
      by (auto simp add: scrapeEvents_def Let_def clock_emit
          split: http_result.splits option.splits)
  qed
  show "eventsCache (snd (scrapeEvents w s)) = eventsCache s"
    using pick s1 by (auto simp add: emit_frame fold_scrapeRow_frame)
  show "dataFile (snd (scrapeEvents w s)) = dataFile s"
    using pick s1 by (auto simp add: emit_frame fold_scrapeRow_frame)
  show "listing_fetches (trace (snd (scrapeEvents w s))) = listing_fetches (trace s) + 1"
    using pick s1 by (auto simp add: count_emit fold_scrapeRow_frame)
  show "file_reads (trace (snd (scrapeEvents w s))) = file_reads (trace s)"
    using pick s1 by (auto simp add: count_emit fold_scrapeRow_frame)
qed


lemma saveEventsToFile_frame:
  "eventsCache (snd (saveEventsToFile w evs s)) = eventsCache s"
  "listing_fetches (trace (snd (saveEventsToFile w evs s))) = listing_fetches (trace s)"
  "file_reads (trace (snd (saveEventsToFile w evs s))) = file_reads (trace s)"
  by (simp_all add: saveEventsToFile_def emit_def listing_fetches_def file_reads_def
      split: option.splits write_outcome.splits)


lemma loadIfEmpty_loaded: "eventsCache s \<noteq> [] \<Longrightarrow> loadIfEmpty w s = s"
  by (simp add: loadIfEmpty_def)

lemma loadIfEmpty_cache:
  "eventsCache s = [] \<Longrightarrow>
   eventsCache (loadIfEmpty w s) =
     (case dataFile s of
        None \<Rightarrow> []
      | Some data \<Rightarrow> (case json_Unmarshal w data of None \<Rightarrow> [] | Some events \<Rightarrow> events))"
  by (auto simp add: loadIfEmpty_def loadEventsFromFile_def emit_def Let_def
      split: option.splits)

lemma loadIfEmpty_frame:
  "dataFile (loadIfEmpty w s) = dataFile s"
  "listing_fetches (trace (loadIfEmpty w s)) = listing_fetches (trace s)"
  "file_reads (trace (loadIfEmpty w s)) \<le> file_reads (trace s) + 1"
  by (auto simp add: loadIfEmpty_def loadEventsFromFile_def emit_def Let_def
      listing_fetches_def file_reads_def split: option.splits)

lemma loadIfEmpty_trace:
  "eventsCache s = [] \<Longrightarrow> \<exists>tr. trace (loadIfEmpty w s) = trace s @ Stat # tr"
  by (auto simp add: loadIfEmpty_def loadEventsFromFile_def emit_def Let_def
      split: option.splits)

lemma getEvents_loaded: "eventsCache s \<noteq> [] \<Longrightarrow> getEvents w s = (Inr (eventsCache s), s)"
  by (simp add: getEvents_def loadIfEmpty_loaded)

lemma getEvents_adopts_file:
  "eventsCache (loadIfEmpty w s) \<noteq> [] \<Longrightarrow>
   getEvents w s = (Inr (eventsCache (loadIfEmpty w s)), loadIfEmpty w s)"
  by (simp add: getEvents_def Let_def)

lemma getEvents_scrape_error:
  "eventsCache (loadIfEmpty w s) = [] \<Longrightarrow> scrapeEvents w (loadIfEmpty w s) = (Inl err, s2) \<Longrightarrow>
   getEvents w s = (Inl err, s2)"
  by (simp add: getEvents_def)

lemma getEvents_scrape_ok:
  "eventsCache (loadIfEmpty w s) = [] \<Longrightarrow> scrapeEvents w (loadIfEmpty w s) = (Inr evs, s2) \<Longrightarrow>
   getEvents w s =
     (case saveEventsToFile w evs (s2\<lparr>eventsCache := evs\<rparr>) of
        (Some err, s4) \<Rightarrow> (Inr evs, emit (Log (LogSaveFailed err)) s4)
      | (None, s4) \<Rightarrow> (Inr evs, s4))"
proof -
  assume a: "eventsCache (loadIfEmpty w s) = []" "scrapeEvents w (loadIfEmpty w s) = (Inr evs, s2)"
  have "eventsCache (snd (saveEventsToFile w evs (s2\<lparr>eventsCache := evs\<rparr>))) = evs"
    by (simp add: saveEventsToFile_frame)
  with a show ?thesis
    by (auto simp add: getEvents_def Let_def split: prod.splits option.splits)
qed

lemma getEvents_returns_cache:
  assumes "getEvents w s = (Inr evs, s')"
  shows "eventsCache s' = evs"
proof (cases "eventsCache (loadIfEmpty w s) = []")
  case False
  with assms show ?thesis by (auto simp add: getEvents_adopts_file)
next
  case True
  obtain res s2 where sc: "scrapeEvents w (loadIfEmpty w s) = (res, s2)"
    by (cases "scrapeEvents w (loadIfEmpty w s)")
  show ?thesis
  proof (cases res)
    case (Inl err)
    with True sc assms show ?thesis by (simp add: getEvents_scrape_error)
  next
    case (Inr evs0)
    have "eventsCache (snd (saveEventsToFile w evs0 (s2\<lparr>eventsCache := evs0\<rparr>))) = evs0"
      by (simp add: saveEventsToFile_frame)
    with Inr True sc assms show ?thesis
      by (auto simp add: getEvents_scrape_ok emit_frame split: prod.splits option.splits)
  qed
qed

lemma getEvents_cases:
  obtains
    (adopted) "eventsCache (loadIfEmpty w s) \<noteq> []"
      "getEvents w s = (Inr (eventsCache (loadIfEmpty w s)), loadIfEmpty w s)"
  | (failed) err s2 where "eventsCache (loadIfEmpty w s) = []"
      "scrapeEvents w (loadIfEmpty w s) = (Inl err, s2)" "getEvents w s = (Inl err, s2)"
  | (saved) evs s2 s4 where "eventsCache (loadIfEmpty w s) = []"
      "scrapeEvents w (loadIfEmpty w s) = (Inr evs, s2)"
      "saveEventsToFile w evs (s2\<lparr>eventsCache := evs\<rparr>) = (None, s4)"
      "getEvents w s = (Inr evs, s4)"
  | (unsaved) evs s2 err s4 where "eventsCache (loadIfEmpty w s) = []"
      "scrapeEvents w (loadIfEmpty w s) = (Inr evs, s2)"
      "saveEventsToFile w evs (s2\<lparr>eventsCache := evs\<rparr>) = (Some err, s4)"
      "getEvents w s = (Inr evs, emit (Log (LogSaveFailed err)) s4)"
proof (cases "eventsCache (loadIfEmpty w s) = []")
  case False
  then show ?thesis using adopted getEvents_adopts_file by blast
next
  case True
  obtain res s2 where sc: "scrapeEvents w (loadIfEmpty w s) = (res, s2)"
    by (cases "scrapeEvents w (loadIfEmpty w s)")
  show ?thesis
  proof (cases res)
    case (Inl err)
    with True sc show ?thesis using failed getEvents_scrape_error by blast
  next
    case (Inr evs)
    obtain r s4 where sv: "saveEventsToFile w evs (s2\<lparr>eventsCache := evs\<rparr>) = (r, s4)"
      by (cases "saveEventsToFile w evs (s2\<lparr>eventsCache := evs\<rparr>)")
    from True sc Inr have g: "getEvents w s =
        (case saveEventsToFile w evs (s2\<lparr>eventsCache := evs\<rparr>) of
           (Some err, s4) \<Rightarrow> (Inr evs, emit (Log (LogSaveFailed err)) s4)
         | (None, s4) \<Rightarrow> (Inr evs, s4))"
      by (simp add: getEvents_scrape_ok)
    show ?thesis
    proof (cases r)
      case None
      with True sc Inr sv g show ?thesis using saved by simp
    next
      case (Some err)
      with True sc Inr sv g show ?thesis using unsaved by simp
    qed
  qed
qed

lemma getEvents_counts:
  "listing_fetches (trace (snd (getEvents w s))) \<le> listing_fetches (trace s) + 1"
  "file_reads (trace (snd (getEvents w s))) \<le> file_reads (trace s) + 1"
proof -
  let ?s1 = "loadIfEmpty w s"
  have l: "listing_fetches (trace ?s1) = listing_fetches (trace s)"
    and r: "file_reads (trace ?s1) \<le> file_reads (trace s) + 1"
    by (rule loadIfEmpty_frame)+
  have sc: "listing_fetches (trace (snd (scrapeEvents w ?s1))) = listing_fetches (trace ?s1) + 1"
    "file_reads (trace (snd (scrapeEvents w ?s1))) = file_reads (trace ?s1)"
    by (rule scrapeEvents_frame)+
  have sv: "listing_fetches (trace (snd (saveEventsToFile w evs (s2\<lparr>eventsCache := evs\<rparr>)))) = listing_fetches (trace s2)"
    "file_reads (trace (snd (saveEventsToFile w evs (s2\<lparr>eventsCache := evs\<rparr>)))) = file_reads (trace s2)"
    for evs s2
    by (simp_all add: saveEventsToFile_frame)
  have "listing_fetches (trace (snd (getEvents w s))) \<le> listing_fetches (trace s) + 1 \<and>
        file_reads (trace (snd (getEvents w s))) \<le> file_reads (trace s) + 1"
  proof (cases w s rule: getEvents_cases)
    case adopted
    with l r show ?thesis by simp
  next
    case (failed err s2)
    with l r sc show ?thesis by simp
  next
    case (saved evs s2 s4)
    with l r sc sv [of evs s2] show ?thesis by simp
  next
    case (unsaved evs s2 err s4)
    with l r sc sv [of evs s2] show ?thesis by (simp add: count_emit)
  qed
  then show "listing_fetches (trace (snd (getEvents w s))) \<le> listing_fetches (trace s) + 1"
    "file_reads (trace (snd (getEvents w s))) \<le> file_reads (trace s) + 1"
    by simp_all
qed


lemma geocodeAddress_extends: "prefix (trace s) (trace (snd (geocodeAddress w a s)))"
  by (simp add: geocodeAddress_def emit_def Let_def
      split: http_result.splits option.splits list.splits)

lemma scrapeRow_extends: "prefix (trace (snd acc)) (trace (snd (scrapeRow w today r acc)))"
proof (cases acc)
  case (Pair evs s)
  obtain res s1 where g: "geocodeAddress w (TrimSpace (address_text r)) s = (res, s1)"
    by (cases "geocodeAddress w (TrimSpace (address_text r)) s")
  have "prefix (trace s) (trace s1)"
    using geocodeAddress_extends [of s w "TrimSpace (address_text r)"] g by simp
  then have "prefix (trace s) (trace s1 @ [e])" for e
    by (rule prefix_order.trans) simp
  with Pair g show ?thesis
    by (auto simp add: scrapeRow_def emit_def Let_def split: option.splits sum.splits)
qed

lemma fold_scrapeRow_extends:
  "prefix (trace (snd acc)) (trace (snd (fold (scrapeRow w today) rows acc)))"
proof (induction rows arbitrary: acc)
  case Nil
  show ?case by simp
next
  case (Cons r rows)
  have "prefix (trace (snd acc)) (trace (snd (scrapeRow w today r acc)))"
    by (rule scrapeRow_extends)
  also have "prefix \<dots> (trace (snd (fold (scrapeRow w today) rows (scrapeRow w today r acc))))"
    by (rule Cons.IH)
  finally show ?case by simp
qed

lemma scrapeEvents_extends: "prefix (trace s) (trace (snd (scrapeEvents w s)))"
proof -
  let ?s1 = "emit (HttpGet ListingReq) (emit (Log LogScraping) s)"
  have p1: "prefix (trace s) (trace ?s1)"
    by (simp add: emit_def)
  have p2: "prefix (trace s) (trace (snd (fold (scrapeRow w today) rows ([], ?s1))) @ [e])"
    for today rows e
  proof -
    have "prefix (trace ?s1) (trace (snd (fold (scrapeRow w today) rows ([], ?s1))))"
      using fold_scrapeRow_extends [of "([], ?s1)"] by simp
    with p1 have "prefix (trace s) (trace (snd (fold (scrapeRow w today) rows ([], ?s1))))"
      by (rule prefix_order.trans)
    then show ?thesis by (rule prefix_order.trans) simp
  qed
  show ?thesis
  proof (cases "\<exists>rows. events_page w (Suc (clock s)) = Response 200 (Some rows)")
    case True
    then obtain rows where "events_page w (Suc (clock s)) = Response 200 (Some rows)" ..
    from scrapeEvents_ok [OF this] p2 show ?thesis
      by (simp add: case_prod_beta emit_frame)
  next
    case False
    with p1 show ?thesis
      by (auto simp add: scrapeEvents_def Let_def clock_emit
          split: http_result.splits option.splits)
  qed
qed

lemma saveEventsToFile_extends: "prefix (trace s) (trace (snd (saveEventsToFile w evs s)))"
  by (simp add: saveEventsToFile_def emit_def split: option.splits write_outcome.splits)

lemma getEvents_extends: "prefix (trace (loadIfEmpty w s)) (trace (snd (getEvents w s)))"
proof (cases w s rule: getEvents_cases)
  case adopted
  then show ?thesis by simp
next
  case (failed err s2)
  with scrapeEvents_extends [of "loadIfEmpty w s" w] show ?thesis by simp
next
  case (saved evs s2 s4)
  have "prefix (trace (loadIfEmpty w s)) (trace s2)"
    using scrapeEvents_extends [of "loadIfEmpty w s" w] saved(2) by simp
  also have "prefix (trace s2) (trace s4)"
    using saveEventsToFile_extends [of "s2\<lparr>eventsCache := evs\<rparr>" w evs] saved(3) by simp
  finally show ?thesis using saved(4) by simp
next
  case (unsaved evs s2 err s4)
  have "prefix (trace (loadIfEmpty w s)) (trace s2)"
    using scrapeEvents_extends [of "loadIfEmpty w s" w] unsaved(2) by simp
  also have "prefix (trace s2) (trace s4)"
    using saveEventsToFile_extends [of "s2\<lparr>eventsCache := evs\<rparr>" w evs] unsaved(3) by simp
  also have "prefix (trace s4) (trace (emit (Log (LogSaveFailed err)) s4))"
    by (simp add: emit_def)
  finally show ?thesis using unsaved(4) by simp
qed

lemma getEvents_reruns:
  assumes "eventsCache s = []"
  shows "\<exists>tr. trace (snd (getEvents w s)) = trace s @ Stat # tr"
proof -
  from loadIfEmpty_trace [OF assms] obtain tr where
    l: "trace (loadIfEmpty w s) = trace s @ Stat # tr" by blast
  from getEvents_extends [of w s] obtain tr' where
    "trace (snd (getEvents w s)) = trace (loadIfEmpty w s) @ tr'"
    by (auto simp add: prefix_def)
  with l show ?thesis by simp
qed

lemma getEvents_scrapes:
  assumes "eventsCache (loadIfEmpty w s) = []"
  shows "listing_fetches (trace (snd (getEvents w s))) = listing_fetches (trace s) + 1"
proof -
  let ?s1 = "loadIfEmpty w s"
  have l: "listing_fetches (trace ?s1) = listing_fetches (trace s)"
    by (rule loadIfEmpty_frame)
  have sc: "listing_fetches (trace (snd (scrapeEvents w ?s1))) = listing_fetches (trace ?s1) + 1"
    by (rule scrapeEvents_frame)
  have sv: "listing_fetches (trace (snd (saveEventsToFile w evs (s2\<lparr>eventsCache := evs\<rparr>)))) = listing_fetches (trace s2)"
    for evs s2
    by (simp add: saveEventsToFile_frame)
  show ?thesis
  proof (cases w s rule: getEvents_cases)
    case adopted
    with assms show ?thesis by simp
  next
    case (failed err s2)
    with l sc show ?thesis by simp
  next
    case (saved evs s2 s4)
    with l sc sv [of evs s2] show ?thesis by simp
  next
    case (unsaved evs s2 err s4)
    with l sc sv [of evs s2] show ?thesis by (simp add: count_emit)
  qed
qed

lemma fold_row_failure:
  assumes blank: "\<And>rows evs s. \<exists>new. fst (fold f rows (evs, s)) = evs @ new \<and>
                     map blank new = map (\<lambda>r. rowEvent r 0 0) (filter (kept today) rows)"
      and pre: "fold f pre acc = (evs1, s1)"
      and step: "f r (evs1, s1) = (evs1 @ [e], s2)"
  shows "\<exists>evs2. fst (fold f (pre @ r # post) acc) = evs1 @ e # evs2 \<and>
           map blank evs2 = map (\<lambda>r. rowEvent r 0 0) (filter (kept today) post)"
proof -
  have "fold f (pre @ r # post) acc = fold f post (evs1 @ [e], s2)"
    using pre step by simp
  moreover from blank [of post "evs1 @ [e]" s2] obtain new where
    "fst (fold f post (evs1 @ [e], s2)) = (evs1 @ [e]) @ new"
    "map blank new = map (\<lambda>r. rowEvent r 0 0) (filter (kept today) post)"
    by blast
  ultimately show ?thesis by simp
qed

lemma scrapeEvents_geocode_failure:
  assumes page: "events_page w (Suc (clock s)) = Response 200 (Some (pre @ r # post))"
      and today: "today = today_at w (clock s + 2)"
      and k: "kept today r"
      and pre: "fold (scrapeRow w today) pre
                  ([], emit (HttpGet ListingReq) (emit (Log LogScraping) s)) = (evs1, s1)"
      and fail: "fst (geocodeAddress w (TrimSpace (address_text r)) s1) = Inl err"
  shows "\<exists>evs2 s'. scrapeEvents w s = (Inr (evs1 @ rowEvent r 0 0 # evs2), s') \<and>
           map blank evs2 = map (\<lambda>r. rowEvent r 0 0) (filter (kept today) post)"
proof -
  obtain s1' where g: "geocodeAddress w (TrimSpace (address_text r)) s1 = (Inl err, s1')"
    using fail by (cases "geocodeAddress w (TrimSpace (address_text r)) s1") simp
  from fold_row_failure [of "scrapeRow w today" today, OF fold_scrapeRow_blank pre
      scrapeRow_keep_fail [OF k g]]
  obtain evs2 where
    e: "fst (fold (scrapeRow w today) (pre @ r # post)
          ([], emit (HttpGet ListingReq) (emit (Log LogScraping) s))) = evs1 @ rowEvent r 0 0 # evs2"
      "map blank evs2 = map (\<lambda>r. rowEvent r 0 0) (filter (kept today) post)"
    by blast
  from scrapeEvents_ok [OF page] e(1) today
  have "fst (scrapeEvents w s) = Inr (evs1 @ rowEvent r 0 0 # evs2)"
    by (simp add: case_prod_beta)
  with e(2) show ?thesis
    by (metis prod.collapse)
qed

lemma scrapeEvents_batch_geocode_failure:
  assumes page: "events_page w (clock s) = Response 200 (Some (pre @ r # post))"
      and today: "today = today_at w (clock s + 1)"
      and k: "kept today r"
      and pre: "fold (scrapeRow_batch w today) pre ([], emit (HttpGet ListingReq) s) = (evs1, s1)"
      and fail: "fst (geocodeAddress_batch w (TrimSpace (address_text r)) s1) = Inl err"
  shows "\<exists>evs2 s'. scrapeEvents_batch w s = (Inr (evs1 @ rowEvent r (- 1) (- 1) # evs2), s') \<and>
           map blank evs2 = map (\<lambda>r. rowEvent r 0 0) (filter (kept today) post)"
proof -
  obtain s1' where g: "geocodeAddress_batch w (TrimSpace (address_text r)) s1 = (Inl err, s1')"
    using fail by (cases "geocodeAddress_batch w (TrimSpace (address_text r)) s1") simp
  from fold_row_failure [of "scrapeRow_batch w today" today, OF fold_scrapeRow_batch_blank pre
      scrapeRow_batch_keep_fail [OF k g]]
  obtain evs2 where
    e: "fst (fold (scrapeRow_batch w today) (pre @ r # post)
          ([], emit (HttpGet ListingReq) s)) = evs1 @ rowEvent r (- 1) (- 1) # evs2"
      "map blank evs2 = map (\<lambda>r. rowEvent r 0 0) (filter (kept today) post)"
    by blast
  from scrapeEvents_batch_ok [OF page] e(1) today
  have "fst (scrapeEvents_batch w s) = Inr (evs1 @ rowEvent r (- 1) (- 1) # evs2)"
    by (simp add: case_prod_beta)
  with e(2) show ?thesis
    by (metis prod.collapse)
qed

lemma scrapeEvents_rows:
  assumes page: "events_page w (Suc (clock s)) = Response 200 (Some rows)"
  shows "\<exists>evs s'. scrapeEvents w s = (Inr evs, s') \<and>
           map blank evs = map (\<lambda>r. rowEvent r 0 0) (filter (kept (today_at w (clock s + 2))) rows)"
proof -
  let ?s1 = "emit (HttpGet ListingReq) (emit (Log LogScraping) s)"
  let ?today = "today_at w (clock s + 2)"
  from fold_scrapeRow_blank [of w ?today rows "[]" ?s1]
  have "map blank (fst (fold (scrapeRow w ?today) rows ([], ?s1))) =
      map (\<lambda>r. rowEvent r 0 0) (filter (kept ?today) rows)"
    by auto
  with scrapeEvents_ok [OF page] show ?thesis
    by (simp add: case_prod_beta)
qed

lemma scrapeEvents_batch_rows:
  assumes page: "events_page w (clock s) = Response 200 (Some rows)"
  shows "\<exists>evs s'. scrapeEvents_batch w s = (Inr evs, s') \<and>
           map blank evs = map (\<lambda>r. rowEvent r 0 0) (filter (kept (today_at w (clock s + 1))) rows)"
proof -
  let ?s1 = "emit (HttpGet ListingReq) s"
  let ?today = "today_at w (clock s + 1)"
  from fold_scrapeRow_batch_blank [of w ?today rows "[]" ?s1]
  have "map blank (fst (fold (scrapeRow_batch w ?today) rows ([], ?s1))) =
      map (\<lambda>r. rowEvent r 0 0) (filter (kept ?today) rows)"
    by auto
  with scrapeEvents_batch_ok [OF page] show ?thesis
    by (simp add: case_prod_beta)
qed

text \<open>What the equation on blanked events says about single fields.\<close>

lemma blank_fields:
  assumes "map blank evs = map (\<lambda>r. rowEvent r 0 0) rs"
  shows "map Title evs = map (\<lambda>r. TrimSpace (title_text r)) rs"
    and "map (\<lambda>e. Some (Date e)) evs = map time_datetime_attr rs \<or> (\<exists>r\<in>set rs. time_datetime_attr r = None)"
    and "length evs = length rs"
proof -
  have "map Title evs = map Title (map blank evs)"
    by (simp add: blank_def)
  then show "map Title evs = map (\<lambda>r. TrimSpace (title_text r)) rs"
    by (simp add: assms rowEvent_def)
  from assms show "length evs = length rs"
    by (metis length_map)
  have "map Date evs = map Date (map blank evs)"
    by (simp add: blank_def)
  then have d: "map Date evs = map (\<lambda>r. case time_datetime_attr r of None \<Rightarrow> [] | Some d \<Rightarrow> d) rs"
    by (simp add: assms rowEvent_def)
  show "map (\<lambda>e. Some (Date e)) evs = map time_datetime_attr rs \<or> (\<exists>r\<in>set rs. time_datetime_attr r = None)"
  proof (cases "\<exists>r\<in>set rs. time_datetime_attr r = None")
    case True
    then show ?thesis by simp
  next
    case False
    then have "map (\<lambda>r. Some (case time_datetime_attr r of None \<Rightarrow> [] | Some d \<Rightarrow> d)) rs =
        map time_datetime_attr rs"
      by (auto split: option.splits)
    moreover have "map (\<lambda>e. Some (Date e)) evs = map Some (map Date evs)"
      by simp
    ultimately show ?thesis using d by simp
  qed
qed

lemma blank_dates:
  assumes "map blank evs = map (\<lambda>r. rowEvent r 0 0) (filter (kept today) rows)"
  shows "map (\<lambda>e. Some (Date e)) evs = map time_datetime_attr (filter (kept today) rows)"
    and "\<forall>e\<in>set evs. prefix today (Date e)"
proof -
  have none: "\<not> (\<exists>r\<in>set (filter (kept today) rows). time_datetime_attr r = None)"
    by (auto simp add: kept_def split: option.splits)
  with blank_fields(2) [OF assms]
  show d: "map (\<lambda>e. Some (Date e)) evs = map time_datetime_attr (filter (kept today) rows)"
    by blast
  show "\<forall>e\<in>set evs. prefix today (Date e)"
  proof
    fix e assume "e \<in> set evs"
    then have "Some (Date e) \<in> set (map (\<lambda>e. Some (Date e)) evs)" by auto
    with d obtain r where "r \<in> set (filter (kept today) rows)" "time_datetime_attr r = Some (Date e)"
      by auto
    then show "prefix today (Date e)" by (simp add: kept_def)
  qed
qed

lemma prefix_same_length: "prefix xs ys \<Longrightarrow> length ys = length xs \<Longrightarrow> ys = xs"
  by (auto simp add: prefix_def)

lemma scrapeRow_no_token:
  assumes "MAPBOX_ACCESS_TOKEN w = []"
  shows "scrapeRow w today r (evs, s) =
    (if kept today r
     then (evs @ [rowEvent r 0 0],
           emit (Log (LogGeocodeError (TrimSpace (address_text r)) TokenNotSet)) s)
     else (evs, s))"
proof (cases "kept today r")
  case False
  then show ?thesis by (simp add: scrapeRow_skip)
next
  case True
  have "geocodeAddress w (TrimSpace (address_text r)) s = (Inl TokenNotSet, s)"
    using assms by (simp add: geocodeAddress_def)
  from scrapeRow_keep_fail [OF True this] True show ?thesis by simp
qed

lemma fold_scrapeRow_no_token:
  assumes "MAPBOX_ACCESS_TOKEN w = []"
  shows "fold (scrapeRow w today) rows (evs, s) =
    (evs @ map (\<lambda>r. rowEvent r 0 0) (filter (kept today) rows),
     s\<lparr>trace := trace s @
        map (\<lambda>r. Log (LogGeocodeError (TrimSpace (address_text r)) TokenNotSet))
          (filter (kept today) rows)\<rparr>)"
proof (induction rows arbitrary: evs s)
  case Nil
  show ?case by simp
next
  case (Cons r rows)
  show ?case
    by (simp add: scrapeRow_no_token [OF assms] Cons.IH emit_def)
qed

lemma getEvents_error:
  assumes "getEvents w s = (Inl err, s')"
  shows "scrapeEvents w (loadIfEmpty w s) = (Inl err, s') \<and>
         (err = FetchError \<or> (\<exists>code. code \<noteq> 200 \<and> err = PageNon200 code) \<or> err = HtmlParseError) \<and>
         eventsCache s = [] \<and> eventsCache s' = [] \<and> dataFile s' = dataFile s \<and>
         listing_fetches (trace (snd (getEvents w s'))) = listing_fetches (trace s') + 1"
proof (cases w s rule: getEvents_cases)
  case adopted
  with assms show ?thesis by simp
next
  case (saved evs s2 s4)
  with assms show ?thesis by simp
next
  case (unsaved evs s2 err s4)
  with assms show ?thesis by simp
next
  case (failed e s2)
  with assms have sc: "scrapeEvents w (loadIfEmpty w s) = (Inl err, s')" by simp
  have s0: "eventsCache s = []"
  proof (rule ccontr)
    assume "eventsCache s \<noteq> []"
    then have "loadIfEmpty w s = s" by (rule loadIfEmpty_loaded)
    with failed(1) \<open>eventsCache s \<noteq> []\<close> show False by simp
  qed
  have c': "eventsCache s' = []"
    using scrapeEvents_frame(1) [of w "loadIfEmpty w s"] sc failed(1) by simp
  have d': "dataFile s' = dataFile s"
    using scrapeEvents_frame(2) [of w "loadIfEmpty w s"] sc by (simp add: loadIfEmpty_frame)
  have "eventsCache (loadIfEmpty w s') = eventsCache (loadIfEmpty w s)"
    using s0 c' d' by (simp add: loadIfEmpty_cache)
  with failed(1) have "eventsCache (loadIfEmpty w s') = []" by simp
  then have retry: "listing_fetches (trace (snd (getEvents w s'))) = listing_fetches (trace s') + 1"
    by (rule getEvents_scrapes)
  from scrapeEvents_error [OF sc] sc s0 c' d' retry show ?thesis by simp
qed

section \<open>Evaluating the examples\<close>

lemma trim_demo:
  "TrimSpace '' May 1 @ 7:00 pm '' = ''May 1 @ 7:00 pm''"
  "TrimSpace ''May 1 @ 8:00 pm'' = ''May 1 @ 8:00 pm''"
  "TrimSpace ''Music'' = ''Music''"
  "TrimSpace '' Concert '' = ''Concert''"
  "TrimSpace ''40 Watt'' = ''40 Watt''"
  "TrimSpace ''Downtown'' = ''Downtown''"
  "TrimSpace ''123 Main St'' = ''123 Main St''"
  "TrimSpace ''Live music'' = ''Live music''"
  "TrimSpace [] = []"
  by (simp_all add: TrimSpace_def white_space_def space_width_def)

lemmas demo_defs = demo_world_def quiet_world_def tokenless_world_def offline_world_def
  fresh_def demo_page_def demo_events_def fixture_marshal_def fixture_unmarshal_def
  row_concert_def row_tomorrow_def row_undated_def row_untitled_def
  event_concert_def event_untitled_def

lemmas run_defs = getEvents_def loadIfEmpty_def loadEventsFromFile_def saveEventsToFile_def
  scrapeEvents_def scrapeRow_def geocodeAddress_def
  scrapeEvents_batch_def scrapeRow_batch_def geocodeAddress_batch_def
  emit_def clock_def HasPrefix_def Let_def

lemma demo_rows:
  "kept ''2024-05-01'' row_concert" "\<not> kept ''2024-05-01'' row_tomorrow"
  "kept ''2024-05-01'' row_untitled" "\<not> kept ''2024-05-01'' row_undated"
  "rowEvent row_concert la lo = event_concert la lo"
  "rowEvent row_untitled la lo = event_untitled la lo"
  by (simp_all add: kept_def rowEvent_def demo_defs trim_demo)

lemma scrape_demo: "fst (scrapeEvents demo_world fresh) = Inr demo_events"
  by (simp add: run_defs demo_defs trim_demo)

lemma scrape_batch_demo:
  "fst (scrapeEvents_batch demo_world fresh) =
     Inr [event_concert 33.95 (- 83.37), event_untitled (- 1) (- 1), event_concert 33.95 (- 83.37)]"
  by (simp add: run_defs demo_defs trim_demo)

lemma demo_page_ok:
  "events_page demo_world (Suc (clock fresh)) = Response 200 (Some demo_page)"
  "events_page demo_world (clock fresh) = Response 200 (Some demo_page)"
  "today_at demo_world t = ''2024-05-01''"
  "filter (kept ''2024-05-01'') demo_page = [row_concert, row_untitled, row_concert]"
  by (simp_all add: demo_world_def demo_page_def demo_rows)

lemma get_demo:
  "getEvents demo_world fresh =
    (Inr demo_events,
     \<lparr>eventsCache = demo_events, dataFile = Some ''[concert, untitled, concert]'',
      trace = [Stat, Log LogScraping, HttpGet ListingReq,
               HttpGet (GeocodeReq ''123 Main St'' ''pk.demo''), Sleep 100,
               HttpGet (GeocodeReq [] ''pk.demo''), Log (LogGeocodeError [] ZeroFeatures),
               HttpGet (GeocodeReq ''123 Main St'' ''pk.demo''), Sleep 100,
               Log (LogScraped 3), WriteFile ''[concert, untitled, concert]'']\<rparr>)"
  by (simp add: run_defs demo_defs trim_demo)

lemma get_quiet:
  "getEvents quiet_world fresh =
    (Inr [],
     \<lparr>eventsCache = [], dataFile = Some ''null'',
      trace = [Stat, Log LogScraping, HttpGet ListingReq, Log (LogScraped 0),
               WriteFile ''null'']\<rparr>)"
  by (simp add: run_defs demo_defs trim_demo)

lemma get_quiet_again:
  "getEvents quiet_world
     \<lparr>eventsCache = [], dataFile = Some ''null'',
      trace = [Stat, Log LogScraping, HttpGet ListingReq, Log (LogScraped 0),
               WriteFile ''null'']\<rparr> =
    (Inr [event_concert 33.95 (- 83.37)],
     \<lparr>eventsCache = [event_concert 33.95 (- 83.37)], dataFile = Some ''[concert]'',
      trace = [Stat, Log LogScraping, HttpGet ListingReq, Log (LogScraped 0),
               WriteFile ''null'', Stat, ReadFile, Log LogLoaded, Log LogScraping,
               HttpGet ListingReq, HttpGet (GeocodeReq ''123 Main St'' ''pk.demo''),
               Sleep 100, Log (LogScraped 1), WriteFile ''[concert]'']\<rparr>)"
  by (simp add: run_defs demo_defs trim_demo)

section \<open>The claims\<close>

subsection \<open>C1: a failed geocoding call does not stop the extraction\<close>

text \<open>
  C1. Take any listing \<open>pre @ r # post\<close> whose row \<open>r\<close> passes the date filter, and let
  the geocoding call made for \<open>r\<close> fail with any error \<open>err\<close> (the call is made in the
  state \<open>s1\<close> that the callback has reached after the rows of \<open>pre\<close>). Then the scrape
  still returns a collection and no error; the event of \<open>r\<close> stands in it right after the
  events \<open>evs1\<close> of the earlier rows, with the sentinel in both coordinates (0 in the
  interactive server, -1 in the batch scraper); and the rows of \<open>post\<close> are processed as
  usual: the events after it are those of the kept rows of \<open>post\<close>.
\<close>

theorem geocode_failure_keeps_event:
  assumes k: "kept today r"
  shows "(events_page w (Suc (clock s)) = Response 200 (Some (pre @ r # post)) \<and>
          today = today_at w (clock s + 2) \<and>
          fold (scrapeRow w today) pre
            ([], emit (HttpGet ListingReq) (emit (Log LogScraping) s)) = (evs1, s1) \<and>
          fst (geocodeAddress w (TrimSpace (address_text r)) s1) = Inl err \<longrightarrow>
          (\<exists>e evs2 s'. scrapeEvents w s = (Inr (evs1 @ e # evs2), s') \<and>
             e = rowEvent r 0 0 \<and> Latitude e = 0 \<and> Longitude e = 0 \<and>
             map blank evs2 = map (\<lambda>r. rowEvent r 0 0) (filter (kept today) post))) \<and>
         (events_page w (clock sb) = Response 200 (Some (pre @ r # post)) \<and>
          today = today_at w (clock sb + 1) \<and>
          fold (scrapeRow_batch w today) pre ([], emit (HttpGet ListingReq) sb) = (evsb, sb1) \<and>
          fst (geocodeAddress_batch w (TrimSpace (address_text r)) sb1) = Inl errb \<longrightarrow>
          (\<exists>e evs2 s'. scrapeEvents_batch w sb = (Inr (evsb @ e # evs2), s') \<and>
             e = rowEvent r (- 1) (- 1) \<and> Latitude e = - 1 \<and> Longitude e = - 1 \<and>
             map blank evs2 = map (\<lambda>r. rowEvent r 0 0) (filter (kept today) post)))"
proof (intro conjI impI)
  assume a: "events_page w (Suc (clock s)) = Response 200 (Some (pre @ r # post)) \<and>
          today = today_at w (clock s + 2) \<and>
          fold (scrapeRow w today) pre
            ([], emit (HttpGet ListingReq) (emit (Log LogScraping) s)) = (evs1, s1) \<and>
          fst (geocodeAddress w (TrimSpace (address_text r)) s1) = Inl err"
  from scrapeEvents_geocode_failure [of w s pre r post today evs1 s1 err] a k
  obtain evs2 s' where "scrapeEvents w s = (Inr (evs1 @ rowEvent r 0 0 # evs2), s')"
    "map blank evs2 = map (\<lambda>r. rowEvent r 0 0) (filter (kept today) post)"
    by blast
  moreover have "Latitude (rowEvent r 0 0) = 0" "Longitude (rowEvent r 0 0) = 0"
    by (simp_all add: rowEvent_def)
  ultimately show "\<exists>e evs2 s'. scrapeEvents w s = (Inr (evs1 @ e # evs2), s') \<and>
             e = rowEvent r 0 0 \<and> Latitude e = 0 \<and> Longitude e = 0 \<and>
             map blank evs2 = map (\<lambda>r. rowEvent r 0 0) (filter (kept today) post)"
    by blast
next
  assume a: "events_page w (clock sb) = Response 200 (Some (pre @ r # post)) \<and>
          today = today_at w (clock sb + 1) \<and>
          fold (scrapeRow_batch w today) pre ([], emit (HttpGet ListingReq) sb) = (evsb, sb1) \<and>
          fst (geocodeAddress_batch w (TrimSpace (address_text r)) sb1) = Inl errb"
  from scrapeEvents_batch_geocode_failure [of w sb pre r post today evsb sb1 errb] a k
  obtain evs2 s' where "scrapeEvents_batch w sb = (Inr (evsb @ rowEvent r (- 1) (- 1) # evs2), s')"
    "map blank evs2 = map (\<lambda>r. rowEvent r 0 0) (filter (kept today) post)"
    by blast
  moreover have "Latitude (rowEvent r (- 1) (- 1)) = - 1" "Longitude (rowEvent r (- 1) (- 1)) = - 1"
    by (simp_all add: rowEvent_def)
  ultimately show "\<exists>e evs2 s'. scrapeEvents_batch w sb = (Inr (evsb @ e # evs2), s') \<and>
             e = rowEvent r (- 1) (- 1) \<and> Latitude e = - 1 \<and> Longitude e = - 1 \<and>
             map blank evs2 = map (\<lambda>r. rowEvent r 0 0) (filter (kept today) post)"
    by blast
qed

theorem geocode_failure_keeps_event_witness:
  "(\<exists>evs2 s'. scrapeEvents demo_world fresh =
       (Inr ([event_concert 33.95 (- 83.37)] @ event_untitled 0 0 # evs2), s') \<and>
       map blank evs2 = [event_concert 0 0]) \<and>
   (\<exists>evs2 s'. scrapeEvents_batch demo_world fresh =
       (Inr ([event_concert 33.95 (- 83.37)] @ event_untitled (- 1) (- 1) # evs2), s') \<and>
       map blank evs2 = [event_concert 0 0])"
proof -
  let ?s1 = "\<lparr>eventsCache = [], dataFile = None,
    trace = [Log LogScraping, HttpGet ListingReq,
             HttpGet (GeocodeReq ''123 Main St'' ''pk.demo''), Sleep 100]\<rparr>"
  let ?b1 = "\<lparr>eventsCache = [], dataFile = None,
    trace = [HttpGet ListingReq, HttpGet (GeocodeReq ''123 Main St'' ''pk.demo'')]\<rparr>"
  have page: "events_page demo_world (Suc (clock fresh)) =
      Response 200 (Some ([row_concert, row_tomorrow] @ row_untitled # [row_undated, row_concert]))"
    "events_page demo_world (clock fresh) =
      Response 200 (Some ([row_concert, row_tomorrow] @ row_untitled # [row_undated, row_concert]))"
    by (simp_all add: demo_world_def demo_page_def)
  have today: "''2024-05-01'' = today_at demo_world (clock fresh + 2)"
    "''2024-05-01'' = today_at demo_world (clock fresh + 1)"
    by (simp_all add: demo_world_def)
  have pre: "fold (scrapeRow demo_world ''2024-05-01'') [row_concert, row_tomorrow]
      ([], emit (HttpGet ListingReq) (emit (Log LogScraping) fresh)) =
      ([event_concert 33.95 (- 83.37)], ?s1)"
    by (simp add: run_defs demo_defs trim_demo)
  have preb: "fold (scrapeRow_batch demo_world ''2024-05-01'') [row_concert, row_tomorrow]
      ([], emit (HttpGet ListingReq) fresh) = ([event_concert 33.95 (- 83.37)], ?b1)"
    by (simp add: run_defs demo_defs trim_demo)
  have fail: "fst (geocodeAddress demo_world (TrimSpace (address_text row_untitled)) ?s1) = Inl ZeroFeatures"
    by (simp add: run_defs demo_defs trim_demo)
  have failb: "fst (geocodeAddress_batch demo_world (TrimSpace (address_text row_untitled)) ?b1) = Inl ZeroFeatures"
    by (simp add: run_defs demo_defs trim_demo)
  note inst = geocode_failure_keeps_event [OF demo_rows(3), where w = demo_world
      and pre = "[row_concert, row_tomorrow]" and post = "[row_undated, row_concert]"
      and s = fresh and ?evs1.0 = "[event_concert 33.95 (- 83.37)]" and ?s1.0 = ?s1 and err = ZeroFeatures
      and sb = fresh and evsb = "[event_concert 33.95 (- 83.37)]" and ?sb1.0 = ?b1 and errb = ZeroFeatures]
  note srv = inst [THEN conjunct1, THEN mp, OF conjI [OF page(1) conjI [OF today(1) conjI [OF pre fail]]]]
  note bat = inst [THEN conjunct2, THEN mp, OF conjI [OF page(2) conjI [OF today(2) conjI [OF preb failb]]]]
  from srv bat show ?thesis
    by (auto simp add: demo_rows)
qed

subsection \<open>C2: repeated calls of \<^verbatim>\<open>getEvents\<close>\<close>

text \<open>
  C2 as stated fails. In \<open>quiet_world\<close> the first call of a fresh process scrapes a
  listing with no row of today and returns the empty collection; the second call reads
  the cache file, finds it empty, scrapes again and returns the concert. The two calls
  return different collections, and two scrapes and one cache load have occurred.
\<close>

theorem empty_result_is_scraped_again:
  "fst (getEvents quiet_world fresh) = Inr [] \<and>
   fst (getEvents quiet_world (snd (getEvents quiet_world fresh))) =
     Inr [event_concert 33.95 (- 83.37)] \<and>
   fst (getEvents quiet_world (snd (getEvents quiet_world fresh))) \<noteq>
     fst (getEvents quiet_world fresh) \<and>
   listing_fetches (trace (snd (getEvents quiet_world (snd (getEvents quiet_world fresh))))) = 2 \<and>
   file_reads (trace (snd (getEvents quiet_world (snd (getEvents quiet_world fresh))))) = 1"
  by (simp add: get_quiet get_quiet_again listing_fetches_def file_reads_def)

text \<open>
  C2, amended. If a call returns a non-empty collection, the next call returns the same
  collection and leaves the state as it is, so it performs no effect at all: no scrape and
  no load; the same holds for any number of further calls. The first call itself fetches
  the listing at most once and reads the cache file at most once.
\<close>

theorem getEvents_repeat_nonempty:
  assumes first: "getEvents w s = (Inr evs, s')" and ne: "evs \<noteq> []"
  shows "getEvents w s' = (Inr evs, s') \<and>
         (\<forall>n. ((\<lambda>t. snd (getEvents w t)) ^^ n) s' = s') \<and>
         listing_fetches (trace s') \<le> listing_fetches (trace s) + 1 \<and>
         file_reads (trace s') \<le> file_reads (trace s) + 1"
proof -
  from first have c: "eventsCache s' = evs" by (rule getEvents_returns_cache)
  with ne have again: "getEvents w s' = (Inr evs, s')"
    by (simp add: getEvents_loaded)
  have "((\<lambda>t. snd (getEvents w t)) ^^ n) s' = s'" for n
    by (induction n) (simp_all add: again)
  moreover have "listing_fetches (trace s') \<le> listing_fetches (trace s) + 1"
    using getEvents_counts(1) [of w s] first by simp
  moreover have "file_reads (trace s') \<le> file_reads (trace s) + 1"
    using getEvents_counts(2) [of w s] first by simp
  ultimately show ?thesis using again by blast
qed

theorem getEvents_repeat_nonempty_witness:
  "demo_events \<noteq> [] \<and>
   fst (getEvents demo_world fresh) = Inr demo_events \<and>
   getEvents demo_world (snd (getEvents demo_world fresh)) =
     (Inr demo_events, snd (getEvents demo_world fresh)) \<and>
   listing_fetches (trace (snd (getEvents demo_world fresh))) \<le> listing_fetches (trace fresh) + 1"
proof -
  have ne: "demo_events \<noteq> []" by (simp add: demo_events_def)
  have f: "fst (getEvents demo_world fresh) = Inr demo_events"
    by (simp add: get_demo)
  then have eq: "getEvents demo_world fresh = (Inr demo_events, snd (getEvents demo_world fresh))"
    by (metis prod.collapse)
  from getEvents_repeat_nonempty [OF eq ne] ne f show ?thesis
    by simp
qed

subsection \<open>C3: only the rows of today are extracted\<close>

text \<open>
  C3. When the listing page is fetched and parsed, the scrape returns the events of exactly
  the rows that pass the filter \<open>kept\<close> (the \<^verbatim>\<open>datetime\<close> attribute exists and today's date
  is a prefix of it), in document order: up to the coordinates, the output is the image of
  the kept rows. A listing none of whose rows is kept gives the empty collection. A row
  that is not kept is skipped silently: the callback leaves the list and the state
  untouched. This holds for the interactive server and for the batch scraper.
\<close>

theorem extraction_keeps_todays_rows:
  "(events_page w (Suc (clock s)) = Response 200 (Some rows) \<longrightarrow>
      (\<exists>evs s'. scrapeEvents w s = (Inr evs, s') \<and>
         map blank evs =
           map (\<lambda>r. rowEvent r 0 0) (filter (kept (today_at w (clock s + 2))) rows) \<and>
         ((\<forall>r\<in>set rows. \<not> kept (today_at w (clock s + 2)) r) \<longrightarrow> evs = []))) \<and>
   (events_page w (clock sb) = Response 200 (Some rows) \<longrightarrow>
      (\<exists>evs s'. scrapeEvents_batch w sb = (Inr evs, s') \<and>
         map blank evs =
           map (\<lambda>r. rowEvent r 0 0) (filter (kept (today_at w (clock sb + 1))) rows) \<and>
         ((\<forall>r\<in>set rows. \<not> kept (today_at w (clock sb + 1)) r) \<longrightarrow> evs = []))) \<and>
   (\<not> kept today r \<longrightarrow>
      scrapeRow w today r (evs0, s0) = (evs0, s0) \<and>
      scrapeRow_batch w today r (evs0, s0) = (evs0, s0))"
proof (intro conjI impI)
  assume "events_page w (Suc (clock s)) = Response 200 (Some rows)"
  from scrapeEvents_rows [OF this] obtain evs s' where
    e: "scrapeEvents w s = (Inr evs, s')"
       "map blank evs = map (\<lambda>r. rowEvent r 0 0) (filter (kept (today_at w (clock s + 2))) rows)"
    by blast
  have "evs = []" if "\<forall>r\<in>set rows. \<not> kept (today_at w (clock s + 2)) r"
  proof -
    from that have "filter (kept (today_at w (clock s + 2))) rows = []"
      by (simp add: filter_empty_conv)
    with e(2) show ?thesis by simp
  qed
  with e show "\<exists>evs s'. scrapeEvents w s = (Inr evs, s') \<and>
         map blank evs =
           map (\<lambda>r. rowEvent r 0 0) (filter (kept (today_at w (clock s + 2))) rows) \<and>
         ((\<forall>r\<in>set rows. \<not> kept (today_at w (clock s + 2)) r) \<longrightarrow> evs = [])"
    by blast
next
  assume "events_page w (clock sb) = Response 200 (Some rows)"
  from scrapeEvents_batch_rows [OF this] obtain evs s' where
    e: "scrapeEvents_batch w sb = (Inr evs, s')"
       "map blank evs = map (\<lambda>r. rowEvent r 0 0) (filter (kept (today_at w (clock sb + 1))) rows)"
    by blast
  have "evs = []" if "\<forall>r\<in>set rows. \<not> kept (today_at w (clock sb + 1)) r"
  proof -
    from that have "filter (kept (today_at w (clock sb + 1))) rows = []"
      by (simp add: filter_empty_conv)
    with e(2) show ?thesis by simp
  qed
  with e show "\<exists>evs s'. scrapeEvents_batch w sb = (Inr evs, s') \<and>
         map blank evs =
           map (\<lambda>r. rowEvent r 0 0) (filter (kept (today_at w (clock sb + 1))) rows) \<and>
         ((\<forall>r\<in>set rows. \<not> kept (today_at w (clock sb + 1)) r) \<longrightarrow> evs = [])"
    by blast
next
  assume "\<not> kept today r"
  then show "scrapeRow w today r (evs0, s0) = (evs0, s0)" by (rule scrapeRow_skip)
next
  assume "\<not> kept today r"
  then show "scrapeRow_batch w today r (evs0, s0) = (evs0, s0)" by (rule scrapeRow_batch_skip)
qed

theorem extraction_keeps_todays_rows_witness:
  "\<not> kept ''2024-05-01'' row_tomorrow \<and>
   fst (scrapeEvents quiet_world fresh) = Inr [] \<and>
   fst (scrapeEvents_batch quiet_world fresh) = Inr [] \<and>
   scrapeRow quiet_world ''2024-05-01'' row_tomorrow ([], fresh) = ([], fresh)"
proof -
  have page: "events_page quiet_world (Suc (clock fresh)) = Response 200 (Some [row_tomorrow])"
    "events_page quiet_world (clock fresh) = Response 200 (Some [row_tomorrow])"
    by (simp_all add: demo_defs clock_def)
  have today: "today_at quiet_world (clock fresh + 2) = ''2024-05-01''"
    "today_at quiet_world (clock fresh + 1) = ''2024-05-01''"
    by (simp_all add: demo_defs)
  have none: "\<forall>r\<in>set [row_tomorrow]. \<not> kept ''2024-05-01'' r"
    by (simp add: demo_rows)
  note inst = extraction_keeps_todays_rows [of quiet_world fresh "[row_tomorrow]" fresh
      "''2024-05-01''" row_tomorrow "[]" fresh]
  from inst [THEN conjunct1, THEN mp, OF page(1)] none
  have "fst (scrapeEvents quiet_world fresh) = Inr []"
    unfolding today by auto
  moreover from inst [THEN conjunct2, THEN conjunct1, THEN mp, OF page(2)] none
  have "fst (scrapeEvents_batch quiet_world fresh) = Inr []"
    unfolding today by auto
  moreover from inst [THEN conjunct2, THEN conjunct2, THEN mp, OF demo_rows(2)]
  have "scrapeRow quiet_world ''2024-05-01'' row_tomorrow ([], fresh) = ([], fresh)"
    by simp
  ultimately show ?thesis using demo_rows(2) by simp
qed

subsection \<open>C4: saving and loading the cache file\<close>



subsection \<open>C5: a failed scrape\<close>

text \<open>
  C5. If \<open>getEvents\<close> reaches the scrape (the collection is still empty after the attempt
  to load the file) and the scrape fails, then \<open>getEvents\<close> returns that very error, which
  is a fetch error, a non-200 status or a parse error; the in-memory collection was empty
  and stays empty, and the cache file is not touched. The next call starts again with the
  check of the file and fetches the listing once more.
\<close>

theorem scrape_failure_is_propagated:
  assumes path: "eventsCache (loadIfEmpty w s) = []"
      and fail: "scrapeEvents w (loadIfEmpty w s) = (Inl err, s')"
  shows "getEvents w s = (Inl err, s') \<and>
         (err = FetchError \<or> (\<exists>code. code \<noteq> 200 \<and> err = PageNon200 code) \<or> err = HtmlParseError) \<and>
         eventsCache s = [] \<and> eventsCache s' = [] \<and> dataFile s' = dataFile s \<and>
         (\<exists>tr. trace (snd (getEvents w s')) = trace s' @ Stat # tr) \<and>
         listing_fetches (trace (snd (getEvents w s'))) = listing_fetches (trace s') + 1"
proof -
  from getEvents_scrape_error [OF path fail] have g: "getEvents w s = (Inl err, s')" .
  from getEvents_error [OF g] have
    rest: "(err = FetchError \<or> (\<exists>code. code \<noteq> 200 \<and> err = PageNon200 code) \<or> err = HtmlParseError)"
      "eventsCache s = []" "eventsCache s' = []" "dataFile s' = dataFile s"
      "listing_fetches (trace (snd (getEvents w s'))) = listing_fetches (trace s') + 1"
    by simp_all
  from getEvents_reruns [OF rest(3)]
  have again: "\<exists>tr. trace (snd (getEvents w s')) = trace s' @ Stat # tr" .
  show ?thesis
    by (insert g rest again, (intro conjI; assumption))
qed

theorem scrape_failure_is_propagated_witness:
  "fst (getEvents offline_world fresh) = Inl FetchError \<and>
   eventsCache (snd (getEvents offline_world fresh)) = [] \<and>
   dataFile (snd (getEvents offline_world fresh)) = dataFile fresh \<and>
   listing_fetches (trace (snd (getEvents offline_world (snd (getEvents offline_world fresh))))) =
     listing_fetches (trace (snd (getEvents offline_world fresh))) + 1"
proof -
  have path: "eventsCache (loadIfEmpty offline_world fresh) = []"
    by (simp add: run_defs demo_defs)
  have "fst (scrapeEvents offline_world (loadIfEmpty offline_world fresh)) = Inl FetchError"
    by (simp add: run_defs demo_defs)
  then have fail: "scrapeEvents offline_world (loadIfEmpty offline_world fresh) =
      (Inl FetchError, snd (scrapeEvents offline_world (loadIfEmpty offline_world fresh)))"
    by (metis prod.collapse)
  from scrape_failure_is_propagated [OF path fail] show ?thesis
    by simp
qed

subsection \<open>C6: a missing access token\<close>

text \<open>
  C6 as stated fails. With \<^verbatim>\<open>MAPBOX_ACCESS_TOKEN\<close> unset, the interactive server's
  \<open>getEvents\<close> still returns the events of a fresh process, each with the sentinel (0, 0):
  the configuration error does not keep the provider from working. And the batch
  scraper's geocoder has no check of the token: it sends the request with the empty
  token and reports what the remote service answers, here a 401.
\<close>

theorem missing_token_is_not_fatal:
  "fst (getEvents tokenless_world fresh) =
     Inr [event_concert 0 0, event_untitled 0 0, event_concert 0 0] \<and>
   geocodeAddress_batch tokenless_world ''123 Main St'' fresh =
     (Inl (Non200 401), fresh\<lparr>trace := [HttpGet (GeocodeReq ''123 Main St'' [])]\<rparr>)"
  by (simp add: run_defs demo_defs trim_demo)

text \<open>
  C6, amended. In the interactive server, for every address the geocoder fails with the
  error "MAPBOX_ACCESS_TOKEN not set" when the token is empty, and performs no effect (no
  request is sent). The error is absorbed like every geocoding error: the scrape of a
  fetched listing returns the events of all kept rows with the sentinel (0, 0), its only
  effects being the listing request and the log lines, and \<open>getEvents\<close> returns these
  events when it reaches the scrape. The batch scraper's geocoder is left out.
\<close>

theorem missing_token_is_absorbed:
  assumes "MAPBOX_ACCESS_TOKEN w = []"
  shows "geocodeAddress w address s = (Inl TokenNotSet, s) \<and>
         (events_page w (Suc (clock s)) = Response 200 (Some rows) \<longrightarrow>
            scrapeEvents w s =
              (Inr (map (\<lambda>r. rowEvent r 0 0) (filter (kept (today_at w (clock s + 2))) rows)),
               s\<lparr>trace := trace s @ [Log LogScraping, HttpGet ListingReq] @
                    map (\<lambda>r. Log (LogGeocodeError (TrimSpace (address_text r)) TokenNotSet))
                      (filter (kept (today_at w (clock s + 2))) rows) @
                    [Log (LogScraped (length (filter (kept (today_at w (clock s + 2))) rows)))]\<rparr>)) \<and>
         (eventsCache (loadIfEmpty w s) = [] \<and>
          events_page w (Suc (clock (loadIfEmpty w s))) = Response 200 (Some rows) \<longrightarrow>
            fst (getEvents w s) =
              Inr (map (\<lambda>r. rowEvent r 0 0)
                     (filter (kept (today_at w (clock (loadIfEmpty w s) + 2))) rows)))"
proof -
  have scrape: "scrapeEvents w t =
      (Inr (map (\<lambda>r. rowEvent r 0 0) (filter (kept (today_at w (clock t + 2))) rows)),
       t\<lparr>trace := trace t @ [Log LogScraping, HttpGet ListingReq] @
            map (\<lambda>r. Log (LogGeocodeError (TrimSpace (address_text r)) TokenNotSet))
              (filter (kept (today_at w (clock t + 2))) rows) @
            [Log (LogScraped (length (filter (kept (today_at w (clock t + 2))) rows)))]\<rparr>)"
    if page: "events_page w (Suc (clock t)) = Response 200 (Some rows)" for t
    by (simp add: scrapeEvents_ok [OF page] fold_scrapeRow_no_token [OF assms] emit_def)
  have geo: "geocodeAddress w address s = (Inl TokenNotSet, s)"
    using assms by (simp add: geocodeAddress_def)
  have get: "fst (getEvents w s) =
      Inr (map (\<lambda>r. rowEvent r 0 0)
             (filter (kept (today_at w (clock (loadIfEmpty w s) + 2))) rows))"
    if e: "eventsCache (loadIfEmpty w s) = []"
      and page: "events_page w (Suc (clock (loadIfEmpty w s))) = Response 200 (Some rows)"
    using getEvents_scrape_ok [OF e scrape [OF page]]
    by (simp add: case_prod_beta split: option.splits)
  from geo scrape [of s] get show ?thesis
    by (intro conjI impI) simp_all
qed

theorem missing_token_is_absorbed_witness:
  "MAPBOX_ACCESS_TOKEN tokenless_world = [] \<and>
   geocodeAddress tokenless_world ''123 Main St'' fresh = (Inl TokenNotSet, fresh) \<and>
   fst (scrapeEvents tokenless_world fresh) =
     Inr [event_concert 0 0, event_untitled 0 0, event_concert 0 0] \<and>
   fst (getEvents tokenless_world fresh) =
     Inr [event_concert 0 0, event_untitled 0 0, event_concert 0 0]"
proof -
  have tok: "MAPBOX_ACCESS_TOKEN tokenless_world = []"
    by (simp add: tokenless_world_def)
  have page: "events_page tokenless_world t = Response 200 (Some demo_page)" for t
    by (simp add: tokenless_world_def demo_world_def)
  have today: "today_at tokenless_world t = ''2024-05-01''" for t
    by (simp add: tokenless_world_def demo_world_def)
  have rhs: "map (\<lambda>r. rowEvent r 0 0) (filter (kept (today_at tokenless_world t)) demo_page) =
      [event_concert 0 0, event_untitled 0 0, event_concert 0 0]" for t
    by (simp add: today demo_page_ok(4) demo_rows)
  have empty: "eventsCache (loadIfEmpty tokenless_world fresh) = []"
    by (simp add: loadIfEmpty_def fresh_def emit_def)
  note inst = missing_token_is_absorbed [OF tok, of "''123 Main St''" fresh demo_page]
  from inst [THEN conjunct2, THEN conjunct1, THEN mp, OF page]
  have "fst (scrapeEvents tokenless_world fresh) =
      Inr [event_concert 0 0, event_untitled 0 0, event_concert 0 0]"
    unfolding rhs by simp
  moreover from inst [THEN conjunct2, THEN conjunct2, THEN mp, OF conjI [OF empty page]]
  have "fst (getEvents tokenless_world fresh) =
      Inr [event_concert 0 0, event_untitled 0 0, event_concert 0 0]"
    unfolding rhs .
  ultimately show ?thesis using inst [THEN conjunct1] tok by simp
qed

subsection \<open>C7: titles\<close>

text \<open>
  C7 as stated fails. The listing of the example has a row of today without a title
  element; the scrape returns its event with the empty title.
\<close>

theorem title_can_be_empty:
  "fst (scrapeEvents demo_world fresh) = Inr demo_events \<and> Title (demo_events ! 1) = []"
  by (simp add: scrape_demo) (simp add: demo_events_def event_untitled_def)

text \<open>
  C7, amended. The titles of the extracted events are the white-space-trimmed texts of the
  title elements of the kept rows, in document order; a title is empty when its row has no
  title text. Nothing in the extraction rejects such a row.
\<close>

theorem titles_are_trimmed_text:
  assumes "events_page w (Suc (clock s)) = Response 200 (Some rows)"
  shows "\<exists>evs s'. scrapeEvents w s = (Inr evs, s') \<and>
           map Title evs =
             map (\<lambda>r. TrimSpace (title_text r)) (filter (kept (today_at w (clock s + 2))) rows)"
proof -
  from scrapeEvents_rows [OF assms] obtain evs s' where
    e: "scrapeEvents w s = (Inr evs, s')"
       "map blank evs = map (\<lambda>r. rowEvent r 0 0) (filter (kept (today_at w (clock s + 2))) rows)"
    by blast
  from blank_fields(1) [OF e(2)] e(1) show ?thesis by blast
qed

theorem titles_are_trimmed_text_witness:
  "\<exists>evs s'. scrapeEvents demo_world fresh = (Inr evs, s') \<and> map Title evs = [''Concert'', [], ''Concert'']"
proof -
  have rhs: "map (\<lambda>r. TrimSpace (title_text r))
      (filter (kept (today_at demo_world (clock fresh + 2))) demo_page) = [''Concert'', [], ''Concert'']"
    by (simp add: demo_page_ok(3,4)) (simp add: row_concert_def row_untitled_def trim_demo)
  from titles_are_trimmed_text [OF demo_page_ok(1)] show ?thesis
    unfolding rhs .
qed

subsection \<open>C8: dates\<close>

text \<open>
  C8 as stated fails. The row of the example whose attribute is \<^verbatim>\<open>2024-05-01T20:00\<close>
  passes the filter on 1 May 2024, and its event keeps the whole attribute as its date,
  which is not the day \<^verbatim>\<open>2024-05-01\<close>, in both scrapers.
\<close>

theorem date_can_carry_time:
  "fst (scrapeEvents demo_world fresh) = Inr demo_events \<and>
   Date (demo_events ! 1) = ''2024-05-01T20:00'' \<and>
   Date (demo_events ! 1) \<noteq> today_at demo_world (clock fresh + 2) \<and>
   fst (scrapeEvents_batch demo_world fresh) =
     Inr [event_concert 33.95 (- 83.37), event_untitled (- 1) (- 1), event_concert 33.95 (- 83.37)] \<and>
   Date (event_untitled (- 1) (- 1)) \<noteq> today_at demo_world (clock fresh + 1)"
  by (simp add: scrape_demo scrape_batch_demo demo_page_ok)
    (simp add: demo_events_def event_untitled_def)

text \<open>
  C8, amended. The date of every extracted event is the \<^verbatim>\<open>datetime\<close> attribute of its
  row, unchanged, and the day of the scrape (as \<^verbatim>\<open>time.Now()\<close> formats it) is a prefix of
  it; the date equals that day when it is no longer than the day. This holds for both
  scrapers.
\<close>

theorem dates_begin_with_today:
  "(events_page w (Suc (clock s)) = Response 200 (Some rows) \<longrightarrow>
      (\<exists>evs s'. scrapeEvents w s = (Inr evs, s') \<and>
         map (\<lambda>e. Some (Date e)) evs =
           map time_datetime_attr (filter (kept (today_at w (clock s + 2))) rows) \<and>
         (\<forall>e\<in>set evs. prefix (today_at w (clock s + 2)) (Date e) \<and>
            (length (Date e) = length (today_at w (clock s + 2)) \<longrightarrow>
               Date e = today_at w (clock s + 2))))) \<and>
   (events_page w (clock sb) = Response 200 (Some rows) \<longrightarrow>
      (\<exists>evs s'. scrapeEvents_batch w sb = (Inr evs, s') \<and>
         map (\<lambda>e. Some (Date e)) evs =
           map time_datetime_attr (filter (kept (today_at w (clock sb + 1))) rows) \<and>
         (\<forall>e\<in>set evs. prefix (today_at w (clock sb + 1)) (Date e) \<and>
            (length (Date e) = length (today_at w (clock sb + 1)) \<longrightarrow>
               Date e = today_at w (clock sb + 1)))))"
proof (intro conjI impI)
  assume "events_page w (Suc (clock s)) = Response 200 (Some rows)"
  from scrapeEvents_rows [OF this] obtain evs s' where
    e: "scrapeEvents w s = (Inr evs, s')"
       "map blank evs = map (\<lambda>r. rowEvent r 0 0) (filter (kept (today_at w (clock s + 2))) rows)"
    by blast
  from blank_dates [OF e(2)] e(1)
  show "\<exists>evs s'. scrapeEvents w s = (Inr evs, s') \<and>
         map (\<lambda>e. Some (Date e)) evs =
           map time_datetime_attr (filter (kept (today_at w (clock s + 2))) rows) \<and>
         (\<forall>e\<in>set evs. prefix (today_at w (clock s + 2)) (Date e) \<and>
            (length (Date e) = length (today_at w (clock s + 2)) \<longrightarrow>
               Date e = today_at w (clock s + 2)))"
    using prefix_same_length by blast
next
  assume "events_page w (clock sb) = Response 200 (Some rows)"
  from scrapeEvents_batch_rows [OF this] obtain evs s' where
    e: "scrapeEvents_batch w sb = (Inr evs, s')"
       "map blank evs = map (\<lambda>r. rowEvent r 0 0) (filter (kept (today_at w (clock sb + 1))) rows)"
    by blast
  from blank_dates [OF e(2)] e(1)
  show "\<exists>evs s'. scrapeEvents_batch w sb = (Inr evs, s') \<and>
         map (\<lambda>e. Some (Date e)) evs =
           map time_datetime_attr (filter (kept (today_at w (clock sb + 1))) rows) \<and>
         (\<forall>e\<in>set evs. prefix (today_at w (clock sb + 1)) (Date e) \<and>
            (length (Date e) = length (today_at w (clock sb + 1)) \<longrightarrow>
               Date e = today_at w (clock sb + 1)))"
    using prefix_same_length by blast
qed

theorem dates_begin_with_today_witness:
  "(\<exists>evs s'. scrapeEvents demo_world fresh = (Inr evs, s') \<and>
      map (\<lambda>e. Some (Date e)) evs =
        [Some ''2024-05-01'', Some ''2024-05-01T20:00'', Some ''2024-05-01'']) \<and>
   (\<exists>evs s'. scrapeEvents_batch demo_world fresh = (Inr evs, s') \<and>
      map (\<lambda>e. Some (Date e)) evs =
        [Some ''2024-05-01'', Some ''2024-05-01T20:00'', Some ''2024-05-01'']) \<and>
   Date (demo_events ! 0) = today_at demo_world (clock fresh + 2)"
proof -
  have rhs: "map time_datetime_attr (filter (kept (today_at demo_world t)) demo_page) =
      [Some ''2024-05-01'', Some ''2024-05-01T20:00'', Some ''2024-05-01'']" for t
    by (simp add: demo_page_ok(3,4)) (simp add: row_concert_def row_untitled_def)
  note inst = dates_begin_with_today [of demo_world fresh demo_page fresh]
  note srv = inst [THEN conjunct1, THEN mp, OF demo_page_ok(1)]
  from srv
  have "\<exists>evs s'. scrapeEvents demo_world fresh = (Inr evs, s') \<and>
      map (\<lambda>e. Some (Date e)) evs =
        [Some ''2024-05-01'', Some ''2024-05-01T20:00'', Some ''2024-05-01'']"
    unfolding rhs by (elim exE conjE) (intro exI conjI; assumption)
  moreover from inst [THEN conjunct2, THEN mp, OF demo_page_ok(2)]
  have "\<exists>evs s'. scrapeEvents_batch demo_world fresh = (Inr evs, s') \<and>
      map (\<lambda>e. Some (Date e)) evs =
        [Some ''2024-05-01'', Some ''2024-05-01T20:00'', Some ''2024-05-01'']"
    unfolding rhs by (elim exE conjE) (intro exI conjI; assumption)
  moreover have "Date (demo_events ! 0) = today_at demo_world (clock fresh + 2)"
  proof -
    from srv obtain evs s' where
      e: "scrapeEvents demo_world fresh = (Inr evs, s')"
      and all: "\<forall>e\<in>set evs. prefix (today_at demo_world (clock fresh + 2)) (Date e) \<and>
            (length (Date e) = length (today_at demo_world (clock fresh + 2)) \<longrightarrow>
               Date e = today_at demo_world (clock fresh + 2))"
      by (elim exE conjE)
    from e scrape_demo have "evs = demo_events" by simp
    then have "demo_events ! 0 \<in> set evs" by (simp add: demo_events_def)
    with all have "length (Date (demo_events ! 0)) = length (today_at demo_world (clock fresh + 2)) \<longrightarrow>
        Date (demo_events ! 0) = today_at demo_world (clock fresh + 2)"
      by blast
    moreover have "length (Date (demo_events ! 0)) = length (today_at demo_world (clock fresh + 2))"
      by (simp add: demo_page_ok(3) demo_events_def event_concert_def)
    ultimately show ?thesis by (rule mp)
  qed
  ultimately show ?thesis by (intro conjI)
qed

subsection \<open>C9: simultaneous callers\<close>

text \<open>
  C9 is about callers that run at the same time. The model has no interleaving of
  goroutines: the whole body of \<^verbatim>\<open>getEvents\<close> runs under the mutex and is one state
  transformer here, so nothing is stated for C9. What calls made one after another do is
  the subject of C2 and C10.
\<close>

subsection \<open>C10: an empty scrape\<close>

text \<open>
  C10. If \<open>getEvents\<close> reaches the scrape and the scrape succeeds with the empty
  collection, then \<open>getEvents\<close> returns the empty collection and no error; it has tried to
  save it (the final state is that of \<open>saveEventsToFile\<close>, followed by the warning when
  the save failed, and the write is in the trace whenever marshalling succeeded); and the
  in-memory collection is still empty. A call in a state with an empty in-memory
  collection never returns at once: it starts with the check of the file. A cache file
  that decodes to the empty collection leaves the in-memory collection empty as well, and
  the call goes on to fetch the listing.
\<close>

theorem getEvents_empty_scrape:
  assumes e1: "eventsCache (loadIfEmpty w s) = []"
      and sc: "scrapeEvents w (loadIfEmpty w s) = (Inr [], s2)"
  shows "\<exists>s'. getEvents w s = (Inr [], s') \<and> eventsCache s' = [] \<and>
           (s' = snd (saveEventsToFile w [] s2) \<or>
            (\<exists>err. s' = emit (Log (LogSaveFailed err)) (snd (saveEventsToFile w [] s2)))) \<and>
           (\<forall>d. json_MarshalIndent w [] = Some d \<longrightarrow> (\<exists>tr. trace s' = trace s2 @ WriteFile d # tr)) \<and>
           (\<forall>t. eventsCache t = [] \<longrightarrow> (\<exists>tr. trace (snd (getEvents w t)) = trace t @ Stat # tr)) \<and>
           (\<forall>t d. eventsCache t = [] \<and> dataFile t = Some d \<and> json_Unmarshal w d = Some [] \<longrightarrow>
              eventsCache (loadIfEmpty w t) = [] \<and>
              listing_fetches (trace (snd (getEvents w t))) = listing_fetches (trace t) + 1)"
proof -
  have c2: "eventsCache s2 = []"
    using scrapeEvents_frame(1) [of w "loadIfEmpty w s"] sc e1 by simp
  then have same: "s2\<lparr>eventsCache := []\<rparr> = s2" by simp
  let ?sv = "saveEventsToFile w [] s2"
  have g: "getEvents w s =
      (case ?sv of (Some err, s4) \<Rightarrow> (Inr [], emit (Log (LogSaveFailed err)) s4)
       | (None, s4) \<Rightarrow> (Inr [], s4))"
    using getEvents_scrape_ok [OF e1 sc] same by simp
  have csv: "eventsCache (snd ?sv) = []"
    using c2 by (simp add: saveEventsToFile_frame)
  have wr: "\<exists>tr. trace (snd ?sv) = trace s2 @ [WriteFile d]" if "json_MarshalIndent w [] = Some d" for d
    using that by (simp add: saveEventsToFile_def emit_def split: write_outcome.splits)
  have rerun: "\<exists>tr. trace (snd (getEvents w t)) = trace t @ Stat # tr" if "eventsCache t = []" for t
    using that by (rule getEvents_reruns)
  have fromfile: "eventsCache (loadIfEmpty w t) = [] \<and>
      listing_fetches (trace (snd (getEvents w t))) = listing_fetches (trace t) + 1"
    if "eventsCache t = [] \<and> dataFile t = Some d \<and> json_Unmarshal w d = Some []" for t d
  proof -
    from that have "eventsCache (loadIfEmpty w t) = []" by (simp add: loadIfEmpty_cache)
    then show ?thesis using getEvents_scrapes by blast
  qed
  define s' where "s' = snd (getEvents w s)"
  have ret: "getEvents w s = (Inr [], s')"
    using g by (simp add: s'_def case_prod_beta split: option.splits)
  have pick: "s' = snd ?sv \<or> (\<exists>err. s' = emit (Log (LogSaveFailed err)) (snd ?sv))"
    using g by (cases "fst ?sv") (auto simp add: s'_def case_prod_beta)
  have c': "eventsCache s' = []"
    using pick csv by (auto simp add: emit_frame)
  have wr': "\<forall>d. json_MarshalIndent w [] = Some d \<longrightarrow> (\<exists>tr. trace s' = trace s2 @ WriteFile d # tr)"
    using pick wr by (auto simp add: emit_frame)
  have rerun': "\<forall>t. eventsCache t = [] \<longrightarrow> (\<exists>tr. trace (snd (getEvents w t)) = trace t @ Stat # tr)"
    using rerun by simp
  have fromfile': "\<forall>t d. eventsCache t = [] \<and> dataFile t = Some d \<and> json_Unmarshal w d = Some [] \<longrightarrow>
      eventsCache (loadIfEmpty w t) = [] \<and>
      listing_fetches (trace (snd (getEvents w t))) = listing_fetches (trace t) + 1"
    using fromfile by blast
  show ?thesis
    by (insert ret c' pick wr' rerun' fromfile', (intro exI [of _ s'] conjI; assumption))
qed

theorem getEvents_empty_scrape_witness:
  "eventsCache (loadIfEmpty quiet_world fresh) = [] \<and>
   fst (scrapeEvents quiet_world (loadIfEmpty quiet_world fresh)) = Inr [] \<and>
   (\<exists>s'. getEvents quiet_world fresh = (Inr [], s') \<and> eventsCache s' = [] \<and>
      (\<exists>tr. trace (snd (getEvents quiet_world s')) = trace s' @ Stat # tr))"
proof -
  have e1: "eventsCache (loadIfEmpty quiet_world fresh) = []"
    by (simp add: run_defs demo_defs)
  have "fst (scrapeEvents quiet_world (loadIfEmpty quiet_world fresh)) = Inr []"
    by (simp add: run_defs demo_defs trim_demo)
  then have sc: "scrapeEvents quiet_world (loadIfEmpty quiet_world fresh) =
      (Inr [], snd (scrapeEvents quiet_world (loadIfEmpty quiet_world fresh)))"
    by (metis prod.collapse)
  from getEvents_empty_scrape [OF e1 sc] obtain s' where
    "getEvents quiet_world fresh = (Inr [], s')" "eventsCache s' = []"
    "\<forall>t. eventsCache t = [] \<longrightarrow> (\<exists>tr. trace (snd (getEvents quiet_world t)) = trace t @ Stat # tr)"
    by blast
  with e1 sc show ?thesis
    by (metis fst_conv)
qed

end
